theory Spec2Isabelle
  imports Main "HOL-Library.AList" "HOL-Library.Sublist"
begin

section \<open>Python values used by cmlutils\<close>

text \<open>
  A Python \<open>str\<close> is modelled as a \<open>string\<close>, one \<open>char\<close> per code point; the model
  therefore covers the code points below 256 (Latin-1), which include every character the
  two modules test for. The character classes below are those of CPython's
  \<open>str.isspace\<close> and \<open>str.isdigit\<close> on that range: besides the ASCII digits,
  \<open>isdigit\<close> accepts the superscripts U+00B2, U+00B3 and U+00B9, which \<open>int()\<close>
  rejects.
\<close>

datatype exn =
    Exception string
  | RuntimeError string
  | ValueError string
  | IndexError
  | OSError string
  | ReadError string
  | TransportError string

datatype level = DEBUG | INFO | ERROR

datatype log_entry =
    Log level string
  | LogLines level string "string list"

definition newline :: char where
  "newline = CHR 0x0A"

definition isspace_chr :: "char \<Rightarrow> bool" where
  "isspace_chr c =
     (let n = (of_char c :: nat)
      in (9 \<le> n \<and> n \<le> 13) \<or> (28 \<le> n \<and> n \<le> 32) \<or> n = 133 \<or> n = 160)"

definition isdecimal_chr :: "char \<Rightarrow> bool" where
  "isdecimal_chr c = (let n = (of_char c :: nat) in 48 \<le> n \<and> n \<le> 57)"

definition isdigit_chr :: "char \<Rightarrow> bool" where
  "isdigit_chr c =
     (let n = (of_char c :: nat)
      in (48 \<le> n \<and> n \<le> 57) \<or> n = 178 \<or> n = 179 \<or> n = 185)"

definition isdigit :: "string \<Rightarrow> bool" where
  "isdigit s = (s \<noteq> [] \<and> list_all isdigit_chr s)"

definition isdecimal :: "string \<Rightarrow> bool" where
  "isdecimal s = (s \<noteq> [] \<and> list_all isdecimal_chr s)"

definition lstrip :: "string \<Rightarrow> string" where
  "lstrip s = dropWhile isspace_chr s"

definition rstrip :: "string \<Rightarrow> string" where
  "rstrip s = rev (dropWhile isspace_chr (rev s))"

definition strip :: "string \<Rightarrow> string" where
  "strip s = rstrip (lstrip s)"

text \<open>\<open>s.split(sep)\<close> for a one-character separator: never an empty list.\<close>

fun split_chr :: "char \<Rightarrow> string \<Rightarrow> string list" where
  "split_chr sep [] = [[]]"
| "split_chr sep (c # cs) =
     (if c = sep then [] # split_chr sep cs
      else (case split_chr sep cs of
              [] \<Rightarrow> [[c]]
            | f # fs \<Rightarrow> (c # f) # fs))"

text \<open>\<open>s.split()\<close> without a separator: the maximal runs of non-whitespace.\<close>

fun split_ws :: "string \<Rightarrow> string list" where
  "split_ws [] = []"
| "split_ws (c # cs) =
     (if isspace_chr c then split_ws cs
      else (case cs of
              [] \<Rightarrow> [[c]]
            | d # ds \<Rightarrow>
                (if isspace_chr d then [c] # split_ws cs
                 else (case split_ws cs of
                         [] \<Rightarrow> [[c]]
                       | f # fs \<Rightarrow> (c # f) # fs))))"

text \<open>\<open>sep.join(xs)\<close>.\<close>

fun join :: "string \<Rightarrow> string list \<Rightarrow> string" where
  "join sep [] = []"
| "join sep [x] = x"
| "join sep (x # y # ys) = x @ sep @ join sep (y # ys)"

definition digit_val :: "char \<Rightarrow> nat" where
  "digit_val c = of_char c - 48"

definition digits_val :: "string \<Rightarrow> nat" where
  "digits_val s = foldl (\<lambda>a c. 10 * a + digit_val c) 0 s"

text \<open>
  \<open>int(s)\<close> on the strings that reach it in \<open>open_ssh_endpoint\<close>, which are those with
  \<open>s.isdigit()\<close>: the value of the ASCII digits, or ValueError when a superscript digit
  occurs or when the string is longer than the interpreter's limit on integer strings
  (\<open>sys.int_info.default_max_str_digits\<close>, 4300 digits, leading zeros counted). Signs,
  underscores and surrounding whitespace, which \<open>int\<close> also accepts, never pass
  \<open>isdigit\<close>.
\<close>

definition int_max_str_digits :: nat where
  "int_max_str_digits = 4300"

definition int_str :: "string \<Rightarrow> exn + int" where
  "int_str s =
     (if isdecimal s \<and> length s \<le> int_max_str_digits then Inr (int (digits_val s))
      else Inl (ValueError s))"

fun str_nat :: "nat \<Rightarrow> string" where
  "str_nat n =
     (if n < 10 then [char_of (48 + n)]
      else str_nat (n div 10) @ [char_of (48 + n mod 10)])"

definition str_int :: "int \<Rightarrow> string" where
  "str_int i = (if i < 0 then CHR ''-'' # str_nat (nat (- i)) else str_nat (nat i))"

section \<open>ssh.py: open_ssh_endpoint\<close>

text \<open>
  The child process as \<open>subprocess.Popen\<close> shows it to the caller: its argument vector
  and the text still unread on its two pipes, as text mode delivers it (decoded, line
  ends translated to the newline character). The text is everything the child writes
  before closing the pipe; a child that keeps a pipe open without writing blocks the
  reader, which is outside this model.
\<close>

record popen =
  args :: "string list"
  stdout :: string
  stderr :: string

text \<open>\<open>stream.readline()\<close>: up to and including the first newline; empty at end of stream.\<close>

definition readline :: "string \<Rightarrow> string \<times> string" where
  "readline s =
     (case dropWhile (\<lambda>c. c \<noteq> newline) s of
        [] \<Rightarrow> (s, [])
      | n # rest \<Rightarrow> (takeWhile (\<lambda>c. c \<noteq> newline) s @ [n], rest))"

text \<open>\<open>stream.readlines()\<close>: all remaining lines, each with its newline.\<close>

fun readlines :: "string \<Rightarrow> string list" where
  "readlines [] = []"
| "readlines (c # cs) =
     (if c = newline then [c] # readlines cs
      else (case readlines cs of
              [] \<Rightarrow> [[c]]
            | l # ls \<Rightarrow> (c # l) # ls))"

definition ssh_command :: "string \<Rightarrow> int \<Rightarrow> string \<Rightarrow> string list" where
  "ssh_command cdswctl_path runtime_id project_slug =
     [cdswctl_path, ''ssh-endpoint'', ''-p'', project_slug, ''-c'', ''1.0'', ''-m'', ''0.5'']
     @ (if runtime_id \<noteq> - 1 then [''-r'', str_int runtime_id] else [])"

definition ssh_prelude_log :: "string \<Rightarrow> string \<Rightarrow> int \<Rightarrow> string \<Rightarrow> log_entry list" where
  "ssh_prelude_log cdswctl_path project_name runtime_id project_slug =
     [Log INFO ''Creating SSH connection'',
      Log DEBUG (''Opening SSH endpoint for project: '' @ project_slug),
      Log DEBUG (''Project name: '' @ project_name),
      Log DEBUG (''Using cdswctl path: '' @ cdswctl_path),
      Log DEBUG (''Runtime ID: '' @ (if runtime_id \<noteq> - 1 then str_int runtime_id else ''default'')),
      Log DEBUG (''SSH command: '' @ join '' '' (ssh_command cdswctl_path runtime_id project_slug))]"

text \<open>
  The outcome of one call: what was logged, the child as the call leaves it (None when
  it could not be spawned), and the value returned or the exception raised. Python's
  \<open>(None, -1)\<close> is \<open>Inr (None, - 1)\<close>; a returned handle is the child itself.
\<close>

record ssh_outcome =
  logged :: "log_entry list"
  child :: "popen option"
  result :: "exn + (popen option \<times> int)"

text \<open>
  Lines 56 to 76, from the line that \<open>readline\<close> gave; \<open>p\<close> is the child after that
  read. The comparison \<open>line == None\<close> of the source is never true of a \<open>str\<close>.
\<close>

definition ssh_banner :: "log_entry list \<Rightarrow> popen \<Rightarrow> string \<Rightarrow> ssh_outcome" where
  "ssh_banner lg p line =
     (if line = [] then
        (let error = readlines (stderr p); p' = p\<lparr>stderr := []\<rparr>
         in \<lparr>logged = lg @ [Log ERROR ''SSH endpoint failed to start - no output received'',
                              LogLines ERROR ''stderr output: '' error],
             child = Some p',
             result = Inr (None, - 1)\<rparr>)
      else
        (let line' = strip line; arr = split_chr CHR '' '' line'
         in if length arr \<le> 3 \<or> \<not> isdigit (arr ! 3) then
              (let stderr_lines = readlines (stderr p); p' = p\<lparr>stderr := []\<rparr>
               in \<lparr>logged = lg @ [Log ERROR (''SSH connection failed unexpectedly: '' @ line'),
                                    LogLines ERROR ''stderr output: '' stderr_lines,
                                    LogLines DEBUG ''Parsed output array: '' arr,
                                    Log DEBUG ''Expected format: output line with port number at index 3 (e.g., 'word word word PORT')''],
                   child = Some p',
                   result = Inl (Exception (''SSH connection failed unexpectedly: '' @ line'))\<rparr>)
            else
              (case int_str (arr ! 3) of
                 Inl e \<Rightarrow>
                   \<lparr>logged = lg @ [Log INFO ''SSH connection successfull''],
                    child = Some p,
                    result = Inl e\<rparr>
               | Inr port_number \<Rightarrow>
                   \<lparr>logged = lg @ [Log INFO ''SSH connection successfull'',
                                   Log DEBUG (''SSH endpoint established on port: '' @ str_int port_number)],
                    child = Some p,
                    result = Inr (Some p, port_number)\<rparr>)))"

text \<open>
  The whole function. \<open>spawn\<close> is the operating system: the child that
  \<open>subprocess.Popen\<close> starts for a command, or the error it raises.
\<close>

definition open_ssh_endpoint ::
  "(string list \<Rightarrow> exn + popen) \<Rightarrow> string \<Rightarrow> string \<Rightarrow> int \<Rightarrow> string \<Rightarrow> ssh_outcome" where
  "open_ssh_endpoint spawn cdswctl_path project_name runtime_id project_slug =
     (let command = ssh_command cdswctl_path runtime_id project_slug;
          lg = ssh_prelude_log cdswctl_path project_name runtime_id project_slug
      in case spawn command of
           Inl e \<Rightarrow> \<lparr>logged = lg, child = None, result = Inl e\<rparr>
         | Inr ssh_call \<Rightarrow>
             (let (line, rest) = readline (stdout ssh_call)
              in ssh_banner (lg @ [Log INFO ''Waiting for SSH connection''])
                   (ssh_call\<lparr>stdout := rest\<rparr>) line))"

text \<open>A fixed child for concrete runs: the operating system starts \<open>p\<close> for any command.\<close>

definition spawn_child :: "popen \<Rightarrow> string list \<Rightarrow> exn + popen" where
  "spawn_child p command = Inr (p\<lparr>args := command\<rparr>)"

text \<open>
  The banner format in the words of the specification: the line with trailing whitespace
  stripped, cut into whitespace-separated fields.
\<close>

definition spec_banner_fields :: "string \<Rightarrow> string list" where
  "spec_banner_fields line = split_ws (rstrip line)"

section \<open>cdswctl.py: cdswctl_login\<close>

text \<open>\<open>str.lower\<close> on the code points below 256.\<close>

definition lower_chr :: "char \<Rightarrow> char" where
  "lower_chr c =
     (let n = (of_char c :: nat)
      in if (65 \<le> n \<and> n \<le> 90) \<or> (192 \<le> n \<and> n \<le> 222 \<and> n \<noteq> 215)
         then char_of (n + 32) else c)"

definition lower :: "string \<Rightarrow> string" where
  "lower s = map lower_chr s"

text \<open>\<open>xs.index(x)\<close>, called only where \<open>x in xs\<close> holds.\<close>

fun index_of :: "'a list \<Rightarrow> 'a \<Rightarrow> nat" where
  "index_of [] x = 0"
| "index_of (y # ys) x = (if y = x then 0 else Suc (index_of ys x))"

text \<open>\<open>needle in hay\<close> for strings: \<open>needle\<close> occurs as a contiguous substring.\<close>

fun startswith :: "string \<Rightarrow> string \<Rightarrow> bool" where
  "startswith hay [] = True"
| "startswith [] (n # ns) = False"
| "startswith (h # hs) (n # ns) = (h = n \<and> startswith hs ns)"

fun contains :: "string \<Rightarrow> string \<Rightarrow> bool" where
  "contains [] needle = (needle = [])"
| "contains (h # hs) needle = (startswith (h # hs) needle \<or> contains hs needle)"

text \<open>What \<open>subprocess.run(..., capture_output=True, text=True)\<close> returns.\<close>

record completed_process =
  returncode :: int
  stdout_text :: string
  stderr_text :: string

definition login_cmd :: "string \<Rightarrow> string \<Rightarrow> string \<Rightarrow> string \<Rightarrow> string \<Rightarrow> string list" where
  "login_cmd cdswctl_path host username api_key ca_path =
     [cdswctl_path, ''login'', ''-n'', username, ''-u'', host, ''-y'', api_key]
     @ (if lower ca_path = ''false'' then [''--insecure-skip-verify''] else [])"

text \<open>Lines 94 to 97: the copy of the command in which one element is replaced.\<close>

definition masked_cmd :: "string list \<Rightarrow> string \<Rightarrow> string list" where
  "masked_cmd cmd api_key =
     (let api_key_index = (if api_key \<in> set cmd then int (index_of cmd api_key) else - 1)
      in if api_key_index \<noteq> - 1 then cmd[nat api_key_index := ''<api_key>''] else cmd)"

definition login_command_line :: "string \<Rightarrow> string \<Rightarrow> string \<Rightarrow> string \<Rightarrow> string \<Rightarrow> string" where
  "login_command_line cdswctl_path host username api_key ca_path =
     ''cdswctl login command: ''
     @ join '' '' (masked_cmd (login_cmd cdswctl_path host username api_key ca_path) api_key)"

definition login_prelude_log :: "string \<Rightarrow> string \<Rightarrow> string \<Rightarrow> string \<Rightarrow> string \<Rightarrow> log_entry list" where
  "login_prelude_log cdswctl_path host username api_key ca_path =
     [Log INFO ''Logging into cdsw via cdswctl'']
     @ (if lower ca_path = ''false''
        then [Log DEBUG ''Added --insecure-skip-verify flag to cdswctl login command''] else [])
     @ [Log DEBUG (login_command_line cdswctl_path host username api_key ca_path)]"

record login_outcome =
  login_logged :: "log_entry list"
  login_result :: "exn + completed_process"

text \<open>
  \<open>run\<close> is the operating system: the completed process for a command, or the error
  that \<open>subprocess.run\<close> raises when the program cannot be started.
\<close>

definition cdswctl_login ::
  "(string list \<Rightarrow> exn + completed_process) \<Rightarrow>
   string \<Rightarrow> string \<Rightarrow> string \<Rightarrow> string \<Rightarrow> string \<Rightarrow> login_outcome" where
  "cdswctl_login run cdswctl_path host username api_key ca_path =
     (let cmd = login_cmd cdswctl_path host username api_key ca_path;
          lg = login_prelude_log cdswctl_path host username api_key ca_path
      in case run cmd of
           Inl e \<Rightarrow> \<lparr>login_logged = lg, login_result = Inl e\<rparr>
         | Inr r \<Rightarrow>
             (if returncode r \<noteq> 0 then
                \<lparr>login_logged = lg @ [Log ERROR (''cdswctl login failed: '' @ stderr_text r)],
                 login_result =
                   Inl (Exception (''cdswctl login failed with return code '' @ str_int (returncode r)))\<rparr>
              else
                \<lparr>login_logged = lg @ [Log INFO ''Login succeeded'',
                                        Log DEBUG (''cdswctl login output: '' @ stdout_text r)],
                 login_result = Inr r\<rparr>))"

text \<open>A fixed external program for concrete runs: every command completes as \<open>r\<close>.\<close>

definition run_completes :: "completed_process \<Rightarrow> string list \<Rightarrow> exn + completed_process" where
  "run_completes r command = Inr r"

section \<open>cdswctl.py: the installer\<close>

subsection \<open>Path strings: os.path and pathlib on POSIX\<close>

text \<open>\<open>os.path.join(a, b)\<close>; with three arguments the source's call is two of these.\<close>

definition path_join :: "string \<Rightarrow> string \<Rightarrow> string" where
  "path_join a b =
     (if startswith b ''/'' then b
      else if a = [] \<or> last a = CHR ''/'' then a @ b
      else a @ ''/'' @ b)"

text \<open>\<open>os.path.split(p)\<close>: the text after the last slash, and what precedes it.\<close>

definition path_split :: "string \<Rightarrow> string \<times> string" where
  "path_split p =
     (let tail = rev (takeWhile (\<lambda>c. c \<noteq> CHR ''/'') (rev p));
          head = rev (dropWhile (\<lambda>c. c \<noteq> CHR ''/'') (rev p))
      in (if head \<noteq> [] \<and> \<not> list_all (\<lambda>c. c = CHR ''/'') head
          then rev (dropWhile (\<lambda>c. c = CHR ''/'') (rev head)) else head,
          tail))"

text \<open>
  \<open>pathlib.Path(s)\<close> as a pure POSIX path: its root (empty, one slash, or two for a
  string that starts with exactly two) and its parts, the components other than the
  empty one and the dot. No component is resolved against the file system.
\<close>

type_synonym pure_path = "string \<times> string list"

definition path_root :: "string \<Rightarrow> string" where
  "path_root s =
     (if \<not> startswith s ''/'' then []
      else if startswith s ''//'' \<and> \<not> startswith s ''///'' then ''//''
      else ''/'')"

definition path_parts :: "string \<Rightarrow> string list" where
  "path_parts s = filter (\<lambda>x. x \<noteq> [] \<and> x \<noteq> ''.'') (split_chr CHR ''/'' s)"

definition Path :: "string \<Rightarrow> pure_path" where
  "Path s = (path_root s, path_parts s)"

text \<open>\<open>p.parents\<close>: the proper ancestors, nearest first, down to the bare root.\<close>

definition parents :: "pure_path \<Rightarrow> pure_path list" where
  "parents p = map (\<lambda>n. (fst p, take n (snd p))) (rev [0..<length (snd p)])"

subsection \<open>The file system\<close>

text \<open>
  A file system maps an absolute path, given by its components, to a directory or a
  file; the root is always a directory. It is an association list so that a directory
  listing has an order, which \<open>os.listdir\<close> leaves to the platform. There are no
  symbolic links, and \<open>..\<close> is resolved on the path string. A file holds bytes or an
  archive with its members, each under the name the archive records.
\<close>

datatype member = MDir string | MFile string string

datatype content = Bytes string | Tar "member list" | Zip "member list"

datatype node = Dir | File content

type_synonym fspath = "string list"

type_synonym fs = "(fspath \<times> node) list"

text \<open>An operation either returns or raises, and leaves a file system behind in both cases.\<close>

type_synonym 'a io = "fs \<Rightarrow> (exn + 'a) \<times> fs"

definition return_io :: "'a \<Rightarrow> 'a io" where
  "return_io x = (\<lambda>s. (Inr x, s))"

definition raise_io :: "exn \<Rightarrow> 'a io" where
  "raise_io e = (\<lambda>s. (Inl e, s))"

definition bind_io :: "'a io \<Rightarrow> ('a \<Rightarrow> 'b io) \<Rightarrow> 'b io" where
  "bind_io m f = (\<lambda>s. case m s of (Inl e, s') \<Rightarrow> (Inl e, s') | (Inr x, s') \<Rightarrow> f x s')"

definition resolve_step :: "fspath \<Rightarrow> string \<Rightarrow> fspath" where
  "resolve_step acc c =
     (if c = [] \<or> c = ''.'' then acc
      else if c = ''..'' then butlast acc
      else acc @ [c])"

definition resolve :: "fspath \<Rightarrow> string \<Rightarrow> fspath" where
  "resolve cwd p =
     foldl resolve_step (if startswith p ''/'' then [] else cwd) (split_chr CHR ''/'' p)"

definition node_at :: "fs \<Rightarrow> fspath \<Rightarrow> node option" where
  "node_at s q = (if q = [] then Some Dir else map_of s q)"

definition entries :: "fs \<Rightarrow> fspath \<Rightarrow> string list" where
  "entries s q = remdups (map last (filter (\<lambda>k. k \<noteq> [] \<and> butlast k = q) (map fst s)))"

text \<open>Creating the missing directories along a path, as \<open>os.makedirs\<close> does for parents.\<close>

fun ensure_dirs :: "fspath \<Rightarrow> string list \<Rightarrow> unit io" where
  "ensure_dirs pre [] s = (Inr (), s)"
| "ensure_dirs pre (c # cs) s =
     (case node_at s (pre @ [c]) of
        Some Dir \<Rightarrow> ensure_dirs (pre @ [c]) cs s
      | Some (File x) \<Rightarrow> (Inl (OSError ''NotADirectoryError''), s)
      | None \<Rightarrow> ensure_dirs (pre @ [c]) cs (AList.update (pre @ [c]) Dir s))"

definition os_path_exists :: "fspath \<Rightarrow> string \<Rightarrow> fs \<Rightarrow> bool" where
  "os_path_exists cwd p s = (node_at s (resolve cwd p) \<noteq> None)"

definition os_makedirs :: "fspath \<Rightarrow> string \<Rightarrow> unit io" where
  "os_makedirs cwd p s =
     (if node_at s (resolve cwd p) \<noteq> None then (Inl (OSError ''FileExistsError''), s)
      else ensure_dirs [] (resolve cwd p) s)"

text \<open>Opening a path for writing and storing the content: \<open>open(p, "wb")\<close>.\<close>

definition write_file :: "fspath \<Rightarrow> content \<Rightarrow> unit io" where
  "write_file q c s =
     (if q = [] then (Inl (OSError ''IsADirectoryError''), s)
      else (case node_at s (butlast q) of
              None \<Rightarrow> (Inl (OSError ''FileNotFoundError''), s)
            | Some (File x) \<Rightarrow> (Inl (OSError ''NotADirectoryError''), s)
            | Some Dir \<Rightarrow>
                (case node_at s q of
                   Some Dir \<Rightarrow> (Inl (OSError ''IsADirectoryError''), s)
                 | _ \<Rightarrow> (Inr (), AList.update q (File c) s))))"

text \<open>
  Modelled from the spec: \<open>download_file\<close> of \<open>cmlutils.utils\<close> is not among the
  sources. The specification gives the fetch capability as
  \<open>fetch(url, destinationPath, caPath) -> void | TransportError\<close>, which writes the
  full response body to the destination. \<open>fetch\<close> below is the remote side: the body
  served for a URL under a trust setting, or the transport error.
\<close>

definition download_file ::
  "(string \<Rightarrow> string \<Rightarrow> exn + content) \<Rightarrow> fspath \<Rightarrow> string \<Rightarrow> string \<Rightarrow> string \<Rightarrow> unit io" where
  "download_file fetch cwd url filepath ca_path s =
     (case fetch url ca_path of
        Inl e \<Rightarrow> (Inl e, s)
      | Inr body \<Rightarrow> write_file (resolve cwd filepath) body s)"

text \<open>
  \<open>tarfile.open(name)\<close> reads tar archives under any of its compressions and raises
  ReadError on every other file; a zip archive is such a file.
\<close>

definition tarfile_open :: "fspath \<Rightarrow> string \<Rightarrow> member list io" where
  "tarfile_open cwd name s =
     (case node_at s (resolve cwd name) of
        None \<Rightarrow> (Inl (OSError ''FileNotFoundError''), s)
      | Some Dir \<Rightarrow> (Inl (OSError ''IsADirectoryError''), s)
      | Some (File (Tar ms)) \<Rightarrow> (Inr ms, s)
      | Some (File x) \<Rightarrow> (Inl (ReadError ''file could not be opened successfully''), s))"

text \<open>
  \<open>TarFile.extractall(path)\<close> without an extraction filter: each member goes to
  \<open>os.path.join(path, name)\<close>, missing parent directories are created, a directory
  member accepts an existing directory, a file member replaces an existing file. The
  first error stops the extraction and leaves what was extracted before it.
\<close>

definition extract_member :: "fspath \<Rightarrow> string \<Rightarrow> member \<Rightarrow> unit io" where
  "extract_member cwd path m =
     (case m of
        MDir name \<Rightarrow>
          (let t = resolve cwd (path_join path name)
           in bind_io (ensure_dirs [] (butlast t))
                (\<lambda>_ s. case node_at s t of
                          Some Dir \<Rightarrow> (Inr (), s)
                        | Some (File x) \<Rightarrow> (Inl (OSError ''FileExistsError''), s)
                        | None \<Rightarrow> (Inr (), AList.update t Dir s)))
      | MFile name data \<Rightarrow>
          (let t = resolve cwd (path_join path name)
           in bind_io (ensure_dirs [] (butlast t)) (\<lambda>_. write_file t (Bytes data))))"

fun extractall :: "fspath \<Rightarrow> string \<Rightarrow> member list \<Rightarrow> unit io" where
  "extractall cwd path [] = return_io ()"
| "extractall cwd path (m # ms) =
     bind_io (extract_member cwd path m) (\<lambda>_. extractall cwd path ms)"

definition os_remove :: "fspath \<Rightarrow> string \<Rightarrow> unit io" where
  "os_remove cwd p s =
     (case node_at s (resolve cwd p) of
        None \<Rightarrow> (Inl (OSError ''FileNotFoundError''), s)
      | Some Dir \<Rightarrow> (Inl (OSError ''IsADirectoryError''), s)
      | Some (File x) \<Rightarrow> (Inr (), AList.delete (resolve cwd p) s))"

definition os_listdir :: "fspath \<Rightarrow> string \<Rightarrow> string list io" where
  "os_listdir cwd p s =
     (case node_at s (resolve cwd p) of
        None \<Rightarrow> (Inl (OSError ''FileNotFoundError''), s)
      | Some (File x) \<Rightarrow> (Inl (OSError ''NotADirectoryError''), s)
      | Some Dir \<Rightarrow> (Inr (entries s (resolve cwd p)), s))"

definition move_subtree :: "fspath \<Rightarrow> fspath \<Rightarrow> fs \<Rightarrow> fs" where
  "move_subtree src dst s =
     map (\<lambda>(k, n). if take (length src) k = src then (dst @ drop (length src) k, n) else (k, n)) s"

text \<open>\<open>os.rename(src, dst)\<close> on POSIX, for a file and for a directory with all below it.\<close>

definition os_rename :: "fspath \<Rightarrow> string \<Rightarrow> string \<Rightarrow> unit io" where
  "os_rename cwd src dst s =
     (let a = resolve cwd src; b = resolve cwd dst
      in case node_at s a of
           None \<Rightarrow> (Inl (OSError ''FileNotFoundError''), s)
         | Some (File x) \<Rightarrow>
             (if b = [] then (Inl (OSError ''IsADirectoryError''), s)
              else if node_at s (butlast b) = None then (Inl (OSError ''FileNotFoundError''), s)
              else if node_at s (butlast b) \<noteq> Some Dir then (Inl (OSError ''NotADirectoryError''), s)
              else if node_at s b = Some Dir then (Inl (OSError ''IsADirectoryError''), s)
              else if a = b then (Inr (), s)
              else (Inr (), AList.update b (File x) (AList.delete a s)))
         | Some Dir \<Rightarrow>
             (if a = [] \<or> b = [] then (Inl (OSError ''EBUSY''), s)
              else if a = b then (Inr (), s)
              else if take (length a) b = a then (Inl (OSError ''EINVAL''), s)
              else if node_at s (butlast b) = None then (Inl (OSError ''FileNotFoundError''), s)
              else if node_at s (butlast b) \<noteq> Some Dir then (Inl (OSError ''NotADirectoryError''), s)
              else (case node_at s b of
                      Some (File y) \<Rightarrow> (Inl (OSError ''NotADirectoryError''), s)
                    | Some Dir \<Rightarrow>
                        (if entries s b \<noteq> [] then (Inl (OSError ''ENOTEMPTY''), s)
                         else (Inr (), move_subtree a b (AList.delete b s)))
                    | None \<Rightarrow> (Inr (), move_subtree a b s))))"

definition os_rmdir :: "fspath \<Rightarrow> string \<Rightarrow> unit io" where
  "os_rmdir cwd p s =
     (let q = resolve cwd p
      in case node_at s q of
           None \<Rightarrow> (Inl (OSError ''FileNotFoundError''), s)
         | Some (File x) \<Rightarrow> (Inl (OSError ''NotADirectoryError''), s)
         | Some Dir \<Rightarrow>
             (if q = [] then (Inl (OSError ''EBUSY''), s)
              else if entries s q \<noteq> [] then (Inl (OSError ''ENOTEMPTY''), s)
              else (Inr (), AList.delete q s)))"

text \<open>
  \<open>os.removedirs(name)\<close>: remove the leaf, then walk up the path string removing each
  parent until one cannot be removed. The walk ends because the head gets shorter.
\<close>

lemma path_split_head_le: "length (fst (path_split p)) \<le> length p"
proof -
  have a: "length (dropWhile (\<lambda>c. c \<noteq> CHR ''/'') (rev p)) \<le> length p"
    using length_dropWhile_le [of "\<lambda>c. c \<noteq> CHR ''/''" "rev p"] by simp
  have b: "length (dropWhile (\<lambda>c. c = CHR ''/'') (dropWhile (\<lambda>c. c \<noteq> CHR ''/'') (rev p)))
             \<le> length (dropWhile (\<lambda>c. c \<noteq> CHR ''/'') (rev p))"
    by (rule length_dropWhile_le)
  from a b show ?thesis by (simp add: path_split_def Let_def)
qed

lemma path_split_head_less:
  assumes "snd (path_split p) \<noteq> []"
  shows "length (fst (path_split p)) < length p"
proof -
  have t: "takeWhile (\<lambda>c. c \<noteq> CHR ''/'') (rev p) \<noteq> []"
    using assms by (simp add: path_split_def Let_def)
  have "length (takeWhile (\<lambda>c. c \<noteq> CHR ''/'') (rev p)) + length (dropWhile (\<lambda>c. c \<noteq> CHR ''/'') (rev p))
          = length (takeWhile (\<lambda>c. c \<noteq> CHR ''/'') (rev p) @ dropWhile (\<lambda>c. c \<noteq> CHR ''/'') (rev p))"
    by (simp only: length_append)
  also have "\<dots> = length (rev p)"
    by (simp only: takeWhile_dropWhile_id)
  finally have s: "length (takeWhile (\<lambda>c. c \<noteq> CHR ''/'') (rev p)) + length (dropWhile (\<lambda>c. c \<noteq> CHR ''/'') (rev p))
          = length p"
    by simp
  from s t have a: "length (dropWhile (\<lambda>c. c \<noteq> CHR ''/'') (rev p)) < length p"
    by (cases "takeWhile (\<lambda>c. c \<noteq> CHR ''/'') (rev p)") auto
  have b: "length (dropWhile (\<lambda>c. c = CHR ''/'') (dropWhile (\<lambda>c. c \<noteq> CHR ''/'') (rev p)))
             \<le> length (dropWhile (\<lambda>c. c \<noteq> CHR ''/'') (rev p))"
    by (rule length_dropWhile_le)
  from a b show ?thesis by (simp add: path_split_def Let_def)
qed

function prune :: "fspath \<Rightarrow> string \<Rightarrow> string \<Rightarrow> unit io" where
  "prune cwd head tail s =
     (if head \<noteq> [] \<and> tail \<noteq> [] then
        (case os_rmdir cwd head s of
           (Inl e, s') \<Rightarrow> (Inr (), s')
         | (Inr u, s') \<Rightarrow> prune cwd (fst (path_split head)) (snd (path_split head)) s')
      else (Inr (), s))"
  by pat_completeness auto
termination
proof (relation "measure (\<lambda>(cwd, head, tail, s). 2 * length head + (if tail = [] then 0 else 1))")
  show "wf (measure (\<lambda>(cwd, head, tail, s). 2 * length head + (if tail = [] then 0 else 1)))"
    by simp
next
  fix cwd :: fspath and head tail :: string and s :: fs and x :: "(exn + unit) \<times> fs" and x1 x2 b
  assume "head \<noteq> [] \<and> tail \<noteq> []"
  then have t: "tail \<noteq> []" by simp
  show "((cwd, fst (path_split head), snd (path_split head), x2), cwd, head, tail, s)
          \<in> measure (\<lambda>(cwd, head, tail, s). 2 * length head + (if tail = [] then 0 else 1))"
  proof (cases "snd (path_split head) = []")
    case True
    with t path_split_head_le [of head] show ?thesis by simp
  next
    case False
    with t path_split_head_less [of head] show ?thesis by simp
  qed
qed

definition os_removedirs :: "fspath \<Rightarrow> string \<Rightarrow> unit io" where
  "os_removedirs cwd name =
     bind_io (os_rmdir cwd name)
       (\<lambda>_. let (head, tail) = path_split name;
                 (head, tail) = (if tail = [] then path_split head else (head, tail))
             in prune cwd head tail)"

subsection \<open>The functions of cdswctl.py\<close>

text \<open>
  What the module reads from its surroundings: the constant
  \<open>constants.BASE_PATH_CDSWCTL\<close>, whose value is not among the sources, the working
  directory of the process, \<open>sys.platform\<close>, the remote side of \<open>download_file\<close>,
  and \<open>urllib.parse.urljoin\<close>.
\<close>

record host_env =
  BASE_PATH_CDSWCTL :: string
  cwd :: fspath
  platform :: string
  fetch :: "string \<Rightarrow> string \<Rightarrow> exn + content"
  urljoin :: "string \<Rightarrow> string \<Rightarrow> string"

definition get_cdswctl_download_url :: "host_env \<Rightarrow> string \<Rightarrow> string" where
  "get_cdswctl_download_url env host =
     (let base_url = urljoin env host ''cli/''
      in if platform env = ''linux'' \<or> platform env = ''linux2''
         then urljoin env base_url ''linux/amd64/cdsw.tar.gz''
         else if platform env = ''darwin''
         then urljoin env base_url ''darwin/amd64/cdsw.tar.gz''
         else urljoin env base_url ''windows/amd64/cdsw.zip'')"

text \<open>\<open>subdir\<close> is \<open>uuid.uuid1().hex[:10]\<close>, ten hexadecimal digits.\<close>

definition cdswctl_tmp_dir_path :: "host_env \<Rightarrow> string \<Rightarrow> string io" where
  "cdswctl_tmp_dir_path env subdir s =
     (let dirpath = path_join (BASE_PATH_CDSWCTL env) subdir
      in if \<not> os_path_exists (cwd env) dirpath s
         then bind_io (os_makedirs (cwd env) dirpath) (\<lambda>_. return_io dirpath) s
         else return_io dirpath s)"

text \<open>Lines 31 to 36 of \<open>_download_and_extract\<close>: the check of the path, then the extraction.\<close>

definition validate_and_extract :: "host_env \<Rightarrow> string \<Rightarrow> string \<Rightarrow> unit io" where
  "validate_and_extract env file_path dir_path =
     (if Path (BASE_PATH_CDSWCTL env) \<in> set (parents (Path dir_path))
      then bind_io (tarfile_open (cwd env) file_path) (\<lambda>tf. extractall (cwd env) dir_path tf)
      else raise_io (RuntimeError ''path for cdswctl could not be validated.''))"

text \<open>Lines 27 and 29 to 43 of \<open>_download_and_extract\<close>, for the \<open>dir_path\<close> that line 28 gave.\<close>

definition download_and_extract_in :: "host_env \<Rightarrow> string \<Rightarrow> string \<Rightarrow> string \<Rightarrow> string io" where
  "download_and_extract_in env url ca_path dir_path =
     (let file_name = last (split_chr CHR ''/'' url);
          file_path = path_join dir_path file_name
      in bind_io (download_file (fetch env) (cwd env) url file_path ca_path) (\<lambda>_.
         bind_io (validate_and_extract env file_path dir_path) (\<lambda>_.
         bind_io (os_remove (cwd env) file_path) (\<lambda>_.
         bind_io (os_listdir (cwd env) dir_path) (\<lambda>names.
         bind_io (case names of [] \<Rightarrow> raise_io IndexError | n # ns \<Rightarrow> return_io n) (\<lambda>cdswctldir.
         (let old_file_path = path_join (path_join dir_path cdswctldir) ''cdswctl'';
              new_file_path = path_join dir_path ''cdswctl''
          in bind_io (os_rename (cwd env) old_file_path new_file_path) (\<lambda>_.
             bind_io (os_removedirs (cwd env) (path_join dir_path cdswctldir)) (\<lambda>_.
             return_io new_file_path)))))))))"

definition download_and_extract :: "host_env \<Rightarrow> string \<Rightarrow> string \<Rightarrow> string \<Rightarrow> string io" where
  "download_and_extract env subdir url ca_path =
     bind_io (cdswctl_tmp_dir_path env subdir) (download_and_extract_in env url ca_path)"

definition obtain_cdswctl :: "host_env \<Rightarrow> string \<Rightarrow> string \<Rightarrow> string \<Rightarrow> string io" where
  "obtain_cdswctl env subdir host ca_path =
     download_and_extract env subdir (get_cdswctl_download_url env host) ca_path"

text \<open>
  \<open>urljoin\<close> where the base ends in a slash and the reference is a relative path of
  plain segments: the reference is appended. Used for concrete runs.
\<close>

definition urljoin_append :: "string \<Rightarrow> string \<Rightarrow> string" where
  "urljoin_append base ref = base @ ref"

text \<open>Concrete surroundings for runs: a remote side that serves one body for every URL.\<close>

definition serve :: "content \<Rightarrow> string \<Rightarrow> string \<Rightarrow> exn + content" where
  "serve body url ca_path = Inr body"

definition env_linux :: host_env where
  "env_linux =
     \<lparr>BASE_PATH_CDSWCTL = ''/opt/cdswctl'', cwd = [''home''], platform = ''linux'',
      fetch = serve (Tar [MDir ''cdsw'', MFile ''cdsw/cdswctl'' ''ELF'']),
      urljoin = urljoin_append\<rparr>"

definition env_windows :: host_env where
  "env_windows =
     \<lparr>BASE_PATH_CDSWCTL = ''/opt/cdswctl'', cwd = [''home''], platform = ''win32'',
      fetch = serve (Zip [MDir ''cdsw'', MFile ''cdsw/cdswctl'' ''MZ'']),
      urljoin = urljoin_append\<rparr>"

text \<open>A plain file name: one path component that is neither empty nor a dot entry.\<close>

definition valid_name :: "string \<Rightarrow> bool" where
  "valid_name n = (n \<noteq> [] \<and> CHR ''/'' \<notin> set n \<and> n \<noteq> ''.'' \<and> n \<noteq> ''..'')"

section \<open>Properties of open_ssh_endpoint\<close>

lemma isdecimal_imp_isdigit: "isdecimal s \<Longrightarrow> isdigit s"
  by (auto simp: isdecimal_def isdigit_def isdecimal_chr_def isdigit_chr_def Let_def list_all_iff)

lemma strip_all_space:
  assumes "list_all isspace_chr s"
  shows "strip s = []"
proof -
  have h: "dropWhile isspace_chr s = []"
    using assms by (simp add: list_all_iff)
  show ?thesis
    unfolding strip_def lstrip_def rstrip_def h by simp
qed

lemma int_str_decimal:
  "isdecimal s \<Longrightarrow> length s \<le> int_max_str_digits \<Longrightarrow> int_str s = Inr (int (digits_val s))"
  by (simp add: int_str_def)

lemma open_ssh_endpoint_read:
  assumes "spawn (ssh_command cdswctl_path runtime_id project_slug) = Inr ssh_call"
      and "readline (stdout ssh_call) = (line, rest)"
  shows "open_ssh_endpoint spawn cdswctl_path project_name runtime_id project_slug =
         ssh_banner (ssh_prelude_log cdswctl_path project_name runtime_id project_slug
                       @ [Log INFO ''Waiting for SSH connection''])
           (ssh_call\<lparr>stdout := rest\<rparr>) line"
  using assms by (simp add: open_ssh_endpoint_def)

lemmas ssh_eval =
  open_ssh_endpoint_def spawn_child_def readline_def newline_def ssh_banner_def Let_def
  strip_def lstrip_def rstrip_def isspace_chr_def isdigit_def isdigit_chr_def int_str_def
  int_max_str_digits_def
  isdecimal_def isdecimal_chr_def digits_val_def digit_val_def spec_banner_fields_def


text \<open>
  Claim C1, amended. The first read of the child's standard output has two distinct
  failure outcomes. When \<open>readline\<close> yields the empty string, standard error is drained
  and the sentinel \<open>(None, -1)\<close> is returned, nothing is raised. When a line is received
  that, stripped at both ends and split on single spaces, has fewer than four fields or
  whose field 3 fails \<open>str.isdigit\<close>, standard error is drained and an exception is
  raised, never the sentinel.
\<close>

theorem open_ssh_endpoint_failure_classes:
  assumes "spawn (ssh_command cdswctl_path runtime_id project_slug) = Inr ssh_call"
      and "readline (stdout ssh_call) = (line, rest)"
      and "out = open_ssh_endpoint spawn cdswctl_path project_name runtime_id project_slug"
      and "arr = split_chr CHR '' '' (strip line)"
  shows "(line = [] \<longrightarrow>
            result out = Inr (None, - 1) \<and>
            child out = Some (ssh_call\<lparr>stdout := rest, stderr := []\<rparr>) \<and>
            LogLines ERROR ''stderr output: '' (readlines (stderr ssh_call)) \<in> set (logged out)) \<and>
         (line \<noteq> [] \<and> (length arr < 4 \<or> \<not> isdigit (arr ! 3)) \<longrightarrow>
            result out = Inl (Exception (''SSH connection failed unexpectedly: '' @ strip line)) \<and>
            result out \<noteq> Inr (None, - 1) \<and>
            child out = Some (ssh_call\<lparr>stdout := rest, stderr := []\<rparr>) \<and>
            LogLines ERROR ''stderr output: '' (readlines (stderr ssh_call)) \<in> set (logged out))"
  unfolding assms(3) open_ssh_endpoint_read [where spawn = spawn, OF assms(1,2)] assms(4)
  by (auto simp: ssh_banner_def Let_def)

lemma readline_eof: "readline [] = ([], [])"
  by (simp add: readline_def)

lemma readline_foo_bar: "readline (''foo bar\<newline>'') = (''foo bar\<newline>'', [])"
  by (simp add: readline_def newline_def)

lemma readline_notanumber:
  "readline (''foo bar baz notanumber\<newline>'') = (''foo bar baz notanumber\<newline>'', [])"
  by (simp add: readline_def newline_def)

lemma strip_foo_bar: "strip (''foo bar\<newline>'') = ''foo bar''"
  by code_simp

lemma strip_notanumber: "strip (''foo bar baz notanumber\<newline>'') = ''foo bar baz notanumber''"
  by code_simp

lemma split_foo_bar: "split_chr CHR '' '' ''foo bar'' = [''foo'', ''bar'']"
  by code_simp

lemma split_notanumber: "split_chr CHR '' '' ''foo bar baz notanumber'' = [''foo'', ''bar'', ''baz'', ''notanumber'']"
  by code_simp

lemma notanumber_not_digit: "\<not> isdigit ''notanumber''"
  by code_simp

theorem open_ssh_endpoint_failure_classes_witness:
  "result (open_ssh_endpoint (spawn_child \<lparr>args = [], stdout = [], stderr = ''boom''\<rparr>)
             ''cdswctl'' ''proj'' (- 1) ''slug'') = Inr (None, - 1) \<and>
   child (open_ssh_endpoint (spawn_child \<lparr>args = [], stdout = [], stderr = ''boom''\<rparr>)
             ''cdswctl'' ''proj'' (- 1) ''slug'')
     = Some \<lparr>args = ssh_command ''cdswctl'' (- 1) ''slug'', stdout = [], stderr = []\<rparr> \<and>
   result (open_ssh_endpoint (spawn_child \<lparr>args = [], stdout = ''foo bar\<newline>'', stderr = ''boom''\<rparr>)
             ''cdswctl'' ''proj'' (- 1) ''slug'')
     = Inl (Exception ''SSH connection failed unexpectedly: foo bar'') \<and>
   result (open_ssh_endpoint (spawn_child \<lparr>args = [], stdout = ''foo bar baz notanumber\<newline>'', stderr = ''boom''\<rparr>)
             ''cdswctl'' ''proj'' (- 1) ''slug'')
     = Inl (Exception ''SSH connection failed unexpectedly: foo bar baz notanumber'')"
proof -
  let ?cmd = "ssh_command ''cdswctl'' (- 1) ''slug''"
  have a: "spawn_child \<lparr>args = [], stdout = [], stderr = ''boom''\<rparr> ?cmd
             = Inr \<lparr>args = ?cmd, stdout = [], stderr = ''boom''\<rparr>"
    by (simp add: spawn_child_def)
  have b: "spawn_child \<lparr>args = [], stdout = ''foo bar\<newline>'', stderr = ''boom''\<rparr> ?cmd
             = Inr \<lparr>args = ?cmd, stdout = ''foo bar\<newline>'', stderr = ''boom''\<rparr>"
    by (simp add: spawn_child_def)
  have c: "spawn_child \<lparr>args = [], stdout = ''foo bar baz notanumber\<newline>'', stderr = ''boom''\<rparr> ?cmd
             = Inr \<lparr>args = ?cmd, stdout = ''foo bar baz notanumber\<newline>'', stderr = ''boom''\<rparr>"
    by (simp add: spawn_child_def)
  have ra: "readline (stdout \<lparr>args = ?cmd, stdout = [], stderr = ''boom''\<rparr>) = ([], [])"
    by (simp add: readline_eof)
  have rb: "readline (stdout \<lparr>args = ?cmd, stdout = ''foo bar\<newline>'', stderr = ''boom''\<rparr>)
              = (''foo bar\<newline>'', [])"
    using readline_foo_bar by simp
  have rc: "readline (stdout \<lparr>args = ?cmd, stdout = ''foo bar baz notanumber\<newline>'', stderr = ''boom''\<rparr>)
              = (''foo bar baz notanumber\<newline>'', [])"
    using readline_notanumber by simp
  note A = open_ssh_endpoint_failure_classes [where spawn = "spawn_child \<lparr>args = [], stdout = [], stderr = ''boom''\<rparr>"
      and project_name = "''proj''", OF a ra refl refl]
  note B = open_ssh_endpoint_failure_classes [where spawn = "spawn_child \<lparr>args = [], stdout = ''foo bar\<newline>'', stderr = ''boom''\<rparr>"
      and project_name = "''proj''", OF b rb refl refl]
  note C = open_ssh_endpoint_failure_classes [where spawn = "spawn_child \<lparr>args = [], stdout = ''foo bar baz notanumber\<newline>'', stderr = ''boom''\<rparr>"
      and project_name = "''proj''", OF c rc refl refl]
  from A have 1: "result (open_ssh_endpoint (spawn_child \<lparr>args = [], stdout = [], stderr = ''boom''\<rparr>)
             ''cdswctl'' ''proj'' (- 1) ''slug'') = Inr (None, - 1)"
      and 2: "child (open_ssh_endpoint (spawn_child \<lparr>args = [], stdout = [], stderr = ''boom''\<rparr>)
             ''cdswctl'' ''proj'' (- 1) ''slug'')
     = Some \<lparr>args = ssh_command ''cdswctl'' (- 1) ''slug'', stdout = [], stderr = []\<rparr>"
    by simp_all
  from B have 3: "result (open_ssh_endpoint (spawn_child \<lparr>args = [], stdout = ''foo bar\<newline>'', stderr = ''boom''\<rparr>)
             ''cdswctl'' ''proj'' (- 1) ''slug'')
     = Inl (Exception ''SSH connection failed unexpectedly: foo bar'')"
    by (simp add: strip_foo_bar split_foo_bar)
  from C have 4: "result (open_ssh_endpoint (spawn_child \<lparr>args = [], stdout = ''foo bar baz notanumber\<newline>'', stderr = ''boom''\<rparr>)
             ''cdswctl'' ''proj'' (- 1) ''slug'')
     = Inl (Exception ''SSH connection failed unexpectedly: foo bar baz notanumber'')"
    by (simp add: strip_notanumber split_notanumber notanumber_not_digit)
  from 1 2 3 4 show ?thesis by simp
qed


text \<open>
  Claim C1 as stated fails, in both of its conditions. The line \<open>foo  bar 4321\<close> has
  three whitespace-separated fields, fewer than four, yet the split on single spaces puts
  \<open>4321\<close> at index 3 and a handle is returned. In the line whose fourth field is the
  superscript two, that field is not a decimal integer, yet it passes \<open>isdigit\<close>:
  success is logged, standard error is left unread, and \<open>int\<close> raises ValueError.
\<close>

theorem failure_classes_counterexample:
  "length (spec_banner_fields ''foo  bar 4321\<newline>'') < 4 \<and>
   result (open_ssh_endpoint (spawn_child \<lparr>args = [], stdout = ''foo  bar 4321\<newline>'', stderr = ''boom''\<rparr>)
             ''cdswctl'' ''proj'' (- 1) ''slug'')
     = Inr (Some \<lparr>args = ssh_command ''cdswctl'' (- 1) ''slug'', stdout = [], stderr = ''boom''\<rparr>, 4321) \<and>
   \<not> isdecimal (split_chr CHR '' '' (strip (''foo bar baz '' @ [CHR 0xB2, CHR 0x0A])) ! 3) \<and>
   \<not> isdecimal (spec_banner_fields (''foo bar baz '' @ [CHR 0xB2, CHR 0x0A]) ! 3) \<and>
   result (open_ssh_endpoint (spawn_child \<lparr>args = [], stdout = ''foo bar baz '' @ [CHR 0xB2, CHR 0x0A], stderr = ''boom''\<rparr>)
             ''cdswctl'' ''proj'' (- 1) ''slug'')
     = Inl (ValueError [CHR 0xB2]) \<and>
   child (open_ssh_endpoint (spawn_child \<lparr>args = [], stdout = ''foo bar baz '' @ [CHR 0xB2, CHR 0x0A], stderr = ''boom''\<rparr>)
             ''cdswctl'' ''proj'' (- 1) ''slug'')
     = Some \<lparr>args = ssh_command ''cdswctl'' (- 1) ''slug'', stdout = [], stderr = ''boom''\<rparr>"
  by (simp add: ssh_eval)

text \<open>
  Claim C10. A first line that is not empty but holds only whitespace strips to the empty
  string, splits to the single empty field and raises; the sentinel \<open>(None, -1)\<close> is the
  result exactly when \<open>readline\<close> returned the empty string.
\<close>

theorem whitespace_line_is_protocol_violation:
  assumes "spawn (ssh_command cdswctl_path runtime_id project_slug) = Inr ssh_call"
      and "readline (stdout ssh_call) = (line, rest)"
      and "out = open_ssh_endpoint spawn cdswctl_path project_name runtime_id project_slug"
  shows "(result out = Inr (None, - 1) \<longleftrightarrow> line = []) \<and>
         (line \<noteq> [] \<and> list_all isspace_chr line \<longrightarrow>
            strip line = [] \<and> split_chr CHR '' '' (strip line) = [[]] \<and>
            result out = Inl (Exception ''SSH connection failed unexpectedly: ''))"
  unfolding assms(3) open_ssh_endpoint_read [where spawn = spawn, OF assms(1,2)]
  by (auto simp: ssh_banner_def Let_def strip_all_space split: sum.splits)

lemma readline_blank: "readline ''   \<newline>'' = (''   \<newline>'', [])"
  by (simp add: readline_def newline_def)

lemma blank_all_space: "list_all isspace_chr ''   \<newline>''"
  by code_simp

theorem whitespace_line_is_protocol_violation_witness:
  "result (open_ssh_endpoint (spawn_child \<lparr>args = [], stdout = ''   \<newline>'', stderr = []\<rparr>)
             ''cdswctl'' ''proj'' (- 1) ''slug'')
     = Inl (Exception ''SSH connection failed unexpectedly: '') \<and>
   result (open_ssh_endpoint (spawn_child \<lparr>args = [], stdout = ''   \<newline>'', stderr = []\<rparr>)
             ''cdswctl'' ''proj'' (- 1) ''slug'') \<noteq> Inr (None, - 1)"
proof -
  let ?cmd = "ssh_command ''cdswctl'' (- 1) ''slug''"
  have a: "spawn_child \<lparr>args = [], stdout = ''   \<newline>'', stderr = []\<rparr> ?cmd
             = Inr \<lparr>args = ?cmd, stdout = ''   \<newline>'', stderr = []\<rparr>"
    by (simp add: spawn_child_def)
  have ra: "readline (stdout \<lparr>args = ?cmd, stdout = ''   \<newline>'', stderr = []\<rparr>) = (''   \<newline>'', [])"
    using readline_blank by simp
  from whitespace_line_is_protocol_violation [where spawn = "spawn_child \<lparr>args = [], stdout = ''   \<newline>'', stderr = []\<rparr>"
      and project_name = "''proj''", OF a ra refl] blank_all_space
  show ?thesis by simp
qed

text \<open>
  Claim C2, amended. For every first line that, stripped of leading and trailing
  whitespace and split on single space characters, has four or more fields whose field 3
  is a non-empty run of ASCII decimal digits, no longer than the interpreter's limit of
  4300 digits, the call returns the live child together with the value of that field.
\<close>

theorem banner_port_returned:
  assumes "spawn (ssh_command cdswctl_path runtime_id project_slug) = Inr ssh_call"
      and "readline (stdout ssh_call) = (line, rest)"
      and "arr = split_chr CHR '' '' (strip line)"
      and "4 \<le> length arr"
      and "isdecimal (arr ! 3)"
      and "length (arr ! 3) \<le> int_max_str_digits"
  shows "result (open_ssh_endpoint spawn cdswctl_path project_name runtime_id project_slug) =
           Inr (Some (ssh_call\<lparr>stdout := rest\<rparr>), int (digits_val (arr ! 3)))"
proof -
  have ne: "line \<noteq> []" using assms(3,4) by (auto simp: strip_def lstrip_def rstrip_def)
  have dg: "isdigit (arr ! 3)" using assms(5) by (rule isdecimal_imp_isdigit)
  show ?thesis
    unfolding open_ssh_endpoint_read [where spawn = spawn, OF assms(1,2)]
    using ne dg assms(3,4,5,6) by (simp add: ssh_banner_def Let_def int_str_decimal)
qed

lemma readline_4321: "readline ''foo bar baz 4321\<newline>'' = (''foo bar baz 4321\<newline>'', [])"
  by (simp add: readline_def newline_def)

lemma arr_4321: "split_chr CHR '' '' (strip ''foo bar baz 4321\<newline>'') = [''foo'', ''bar'', ''baz'', ''4321'']"
  by code_simp

lemma decimal_4321: "isdecimal ''4321''"
  by code_simp

lemma value_4321: "digits_val ''4321'' = 4321"
  by code_simp

theorem banner_port_returned_witness:
  "result (open_ssh_endpoint (spawn_child \<lparr>args = [], stdout = ''foo bar baz 4321\<newline>'', stderr = []\<rparr>)
             ''cdswctl'' ''proj'' (- 1) ''slug'')
     = Inr (Some \<lparr>args = ssh_command ''cdswctl'' (- 1) ''slug'', stdout = [], stderr = []\<rparr>, 4321)"
proof -
  let ?cmd = "ssh_command ''cdswctl'' (- 1) ''slug''"
  have a: "spawn_child \<lparr>args = [], stdout = ''foo bar baz 4321\<newline>'', stderr = []\<rparr> ?cmd
             = Inr \<lparr>args = ?cmd, stdout = ''foo bar baz 4321\<newline>'', stderr = []\<rparr>"
    by (simp add: spawn_child_def)
  have ra: "readline (stdout \<lparr>args = ?cmd, stdout = ''foo bar baz 4321\<newline>'', stderr = []\<rparr>)
              = (''foo bar baz 4321\<newline>'', [])"
    using readline_4321 by simp
  have len: "4 \<le> length (split_chr CHR '' '' (strip ''foo bar baz 4321\<newline>''))"
    by (simp add: arr_4321)
  have dec: "isdecimal (split_chr CHR '' '' (strip ''foo bar baz 4321\<newline>'') ! 3)"
    by (simp add: arr_4321 decimal_4321)
  have lim: "length (split_chr CHR '' '' (strip ''foo bar baz 4321\<newline>'') ! 3) \<le> int_max_str_digits"
    by (simp add: arr_4321 int_max_str_digits_def)
  from banner_port_returned [where spawn = "spawn_child \<lparr>args = [], stdout = ''foo bar baz 4321\<newline>'', stderr = []\<rparr>"
      and project_name = "''proj''", OF a ra refl len dec lim]
  show ?thesis by (simp add: arr_4321 value_4321)
qed

text \<open>
  Claim C2 as stated fails. The line \<open>foo  bar baz 4321\<close>, with two spaces after
  \<open>foo\<close>, has the four whitespace-separated fields foo, bar, baz, 4321, the last a
  decimal integer; the code splits on single spaces, finds \<open>baz\<close> at index 3 and raises.
\<close>

theorem whitespace_fields_counterexample:
  "spec_banner_fields ''foo  bar baz 4321\<newline>'' = [''foo'', ''bar'', ''baz'', ''4321''] \<and>
   isdecimal (spec_banner_fields ''foo  bar baz 4321\<newline>'' ! 3) \<and>
   result (open_ssh_endpoint (spawn_child \<lparr>args = [], stdout = ''foo  bar baz 4321\<newline>'', stderr = []\<rparr>)
             ''cdswctl'' ''proj'' (- 1) ''slug'')
     = Inl (Exception ''SSH connection failed unexpectedly: foo  bar baz 4321'')"
  by (simp add: ssh_eval)

text \<open>
  Claim C8, amended. Whenever a handle is returned, the child was spawned, its first line
  was not empty, the stripped line has at least four single-space-separated fields,
  field 3 is a run of ASCII decimal digits and the port is its value, a non-negative
  integer with no upper bound; the handle is the child after that one read.
\<close>

theorem handle_only_after_parse:
  assumes "result (open_ssh_endpoint spawn cdswctl_path project_name runtime_id project_slug) = Inr (Some h, port)"
  shows "\<exists>ssh_call line rest arr.
           spawn (ssh_command cdswctl_path runtime_id project_slug) = Inr ssh_call \<and>
           readline (stdout ssh_call) = (line, rest) \<and>
           arr = split_chr CHR '' '' (strip line) \<and>
           line \<noteq> [] \<and> 4 \<le> length arr \<and> isdecimal (arr ! 3) \<and>
           port = int (digits_val (arr ! 3)) \<and> 0 \<le> port \<and>
           h = ssh_call\<lparr>stdout := rest\<rparr>"
proof (cases "spawn (ssh_command cdswctl_path runtime_id project_slug)")
  case (Inl e)
  with assms show ?thesis by (simp add: open_ssh_endpoint_def)
next
  case (Inr ssh_call)
  obtain line rest where rl: "readline (stdout ssh_call) = (line, rest)" by force
  from assms have "result (ssh_banner (ssh_prelude_log cdswctl_path project_name runtime_id project_slug
                       @ [Log INFO ''Waiting for SSH connection''])
           (ssh_call\<lparr>stdout := rest\<rparr>) line) = Inr (Some h, port)"
    unfolding open_ssh_endpoint_read [where spawn = spawn, OF Inr rl] .
  then have "line \<noteq> [] \<and> 4 \<le> length (split_chr CHR '' '' (strip line)) \<and>
      isdecimal (split_chr CHR '' '' (strip line) ! 3) \<and>
      port = int (digits_val (split_chr CHR '' '' (strip line) ! 3)) \<and> h = ssh_call\<lparr>stdout := rest\<rparr>"
    by (auto simp: ssh_banner_def Let_def int_str_def split: if_splits sum.splits)
  with Inr rl show ?thesis by auto
qed

lemma run_4321:
  "result (open_ssh_endpoint (spawn_child \<lparr>args = [], stdout = ''foo bar baz 4321\<newline>'', stderr = []\<rparr>)
             ''cdswctl'' ''proj'' (- 1) ''slug'')
     = Inr (Some \<lparr>args = ssh_command ''cdswctl'' (- 1) ''slug'', stdout = [], stderr = []\<rparr>, 4321)"
  by (simp add: ssh_eval)

theorem handle_only_after_parse_witness:
  "\<exists>ssh_call line rest arr.
      spawn_child \<lparr>args = [], stdout = ''foo bar baz 4321\<newline>'', stderr = []\<rparr>
        (ssh_command ''cdswctl'' (- 1) ''slug'') = Inr ssh_call \<and>
      readline (stdout ssh_call) = (line, rest) \<and>
      arr = split_chr CHR '' '' (strip line) \<and>
      line \<noteq> [] \<and> 4 \<le> length arr \<and> isdecimal (arr ! 3) \<and>
      (4321::int) = int (digits_val (arr ! 3)) \<and> 0 \<le> (4321::int) \<and>
      \<lparr>args = ssh_command ''cdswctl'' (- 1) ''slug'', stdout = [], stderr = []\<rparr> = ssh_call\<lparr>stdout := rest\<rparr>"
  by (rule handle_only_after_parse [OF run_4321])

text \<open>
  Claim C8 as stated fails. The banners \<open>foo bar baz 99999\<close> and \<open>foo bar baz 0\<close>
  give a handle with ports 99999 and 0, outside 1 to 65535: no range check is made.
\<close>

theorem port_range_counterexample:
  "result (open_ssh_endpoint (spawn_child \<lparr>args = [], stdout = ''foo bar baz 99999\<newline>'', stderr = []\<rparr>)
             ''cdswctl'' ''proj'' (- 1) ''slug'')
     = Inr (Some \<lparr>args = ssh_command ''cdswctl'' (- 1) ''slug'', stdout = [], stderr = []\<rparr>, 99999) \<and>
   \<not> (1 \<le> (99999::int) \<and> (99999::int) \<le> 65535) \<and>
   result (open_ssh_endpoint (spawn_child \<lparr>args = [], stdout = ''foo bar baz 0\<newline>'', stderr = []\<rparr>)
             ''cdswctl'' ''proj'' (- 1) ''slug'')
     = Inr (Some \<lparr>args = ssh_command ''cdswctl'' (- 1) ''slug'', stdout = [], stderr = []\<rparr>, 0) \<and>
   \<not> (1 \<le> (0::int) \<and> (0::int) \<le> 65535)"
  by (simp add: ssh_eval)

section \<open>Properties of cdswctl_login\<close>

lemmas login_eval =
  cdswctl_login_def login_prelude_log_def login_command_line_def masked_cmd_def login_cmd_def
  run_completes_def lower_def lower_chr_def Let_def


lemma str_int_1: "str_int 1 = ''1''"
  by code_simp

text \<open>
  Claim C6, amended. For every login in which the external process exits with a non-zero
  status, login raises an exception whose message names the return code, and the captured
  standard-error text is written to the error log just before, as the last log entry.
\<close>

theorem login_nonzero_exit_raises:
  assumes "run (login_cmd cdswctl_path host username api_key ca_path) = Inr r"
      and "returncode r \<noteq> 0"
  shows "login_result (cdswctl_login run cdswctl_path host username api_key ca_path)
           = Inl (Exception (''cdswctl login failed with return code '' @ str_int (returncode r))) \<and>
         login_logged (cdswctl_login run cdswctl_path host username api_key ca_path)
           = login_prelude_log cdswctl_path host username api_key ca_path
             @ [Log ERROR (''cdswctl login failed: '' @ stderr_text r)]"
  using assms by (simp add: cdswctl_login_def)

theorem login_nonzero_exit_raises_witness:
  "login_result (cdswctl_login (run_completes \<lparr>returncode = 1, stdout_text = [], stderr_text = ''invalid API key''\<rparr>)
      ''/opt/cdswctl'' ''https://cml.example.com'' ''alice'' ''s3cret'' '''')
     = Inl (Exception ''cdswctl login failed with return code 1'') \<and>
   last (login_logged (cdswctl_login (run_completes \<lparr>returncode = 1, stdout_text = [], stderr_text = ''invalid API key''\<rparr>)
      ''/opt/cdswctl'' ''https://cml.example.com'' ''alice'' ''s3cret'' ''''))
     = Log ERROR ''cdswctl login failed: invalid API key''"
proof -
  have a: "run_completes \<lparr>returncode = 1, stdout_text = [], stderr_text = ''invalid API key''\<rparr>
             (login_cmd ''/opt/cdswctl'' ''https://cml.example.com'' ''alice'' ''s3cret'' '''')
           = Inr \<lparr>returncode = 1, stdout_text = [], stderr_text = ''invalid API key''\<rparr>"
    by (simp add: run_completes_def)
  have b: "returncode \<lparr>returncode = 1, stdout_text = [], stderr_text = ''invalid API key''\<rparr> \<noteq> 0"
    by simp
  have c: "str_int 1 = ''1''" by (rule str_int_1)
  from login_nonzero_exit_raises [where run = "run_completes \<lparr>returncode = 1, stdout_text = [], stderr_text = ''invalid API key''\<rparr>", OF a b] c
  show ?thesis by simp
qed

text \<open>
  Claim C6 as stated fails. With exit status 1 and standard error \<open>invalid API key\<close>
  the raised exception is \<open>cdswctl login failed with return code 1\<close>: it does not
  carry the standard-error text.
\<close>

theorem login_exception_lacks_stderr_counterexample:
  "login_result (cdswctl_login (run_completes \<lparr>returncode = 1, stdout_text = [], stderr_text = ''invalid API key''\<rparr>)
      ''/opt/cdswctl'' ''https://cml.example.com'' ''alice'' ''s3cret'' '''')
     = Inl (Exception ''cdswctl login failed with return code 1'') \<and>
   \<not> contains ''cdswctl login failed with return code 1'' ''invalid API key''"
  by (simp add: login_eval str_int_1)


text \<open>
  Claim C7 at a failing input. With the username equal to the API key,
  \<open>masked_cmd.index(api_key)\<close> finds the username at index 3 and replaces that element;
  the key itself, after \<open>-y\<close>, is rendered in clear in the command log line.
\<close>

theorem api_key_logged_in_clear:
  "masked_cmd (login_cmd ''/opt/cdswctl'' ''https://cml.example.com'' ''s3cret'' ''s3cret'' []) ''s3cret''
     = [''/opt/cdswctl'', ''login'', ''-n'', ''<api_key>'', ''-u'', ''https://cml.example.com'', ''-y'', ''s3cret''] \<and>
   Log DEBUG ''cdswctl login command: /opt/cdswctl login -n <api_key> -u https://cml.example.com -y s3cret''
     \<in> set (login_logged (cdswctl_login (run_completes \<lparr>returncode = 0, stdout_text = [], stderr_text = []\<rparr>)
                 ''/opt/cdswctl'' ''https://cml.example.com'' ''s3cret'' ''s3cret'' []))"
  by (simp add: login_eval)

text \<open>
  Where the key differs from every other element of the argument list, the element that
  is replaced is the key's own, at index 7.
\<close>

lemma api_key_masked_when_distinct:
  assumes "api_key \<notin> set [cdswctl_path, ''login'', ''-n'', username, ''-u'', host, ''-y'',
                            ''--insecure-skip-verify'', ''<api_key>'']"
  shows "masked_cmd (login_cmd cdswctl_path host username api_key ca_path) api_key
           = (login_cmd cdswctl_path host username api_key ca_path)[7 := ''<api_key>''] \<and>
         api_key \<notin> set (masked_cmd (login_cmd cdswctl_path host username api_key ca_path) api_key) \<and>
         Log DEBUG (''cdswctl login command: ''
                    @ join '' '' ((login_cmd cdswctl_path host username api_key ca_path)[7 := ''<api_key>'']))
           \<in> set (login_logged (cdswctl_login run cdswctl_path host username api_key ca_path))"
proof -
  let ?cmd = "login_cmd cdswctl_path host username api_key ca_path"
  have m: "masked_cmd ?cmd api_key = ?cmd[7 := ''<api_key>'']"
    using assms by (auto simp: masked_cmd_def login_cmd_def)
  have n: "api_key \<notin> set (?cmd[7 := ''<api_key>''])"
    using assms by (auto simp: login_cmd_def)
  have l: "Log DEBUG (''cdswctl login command: '' @ join '' '' (?cmd[7 := ''<api_key>'']))
             \<in> set (login_prelude_log cdswctl_path host username api_key ca_path)"
    unfolding login_prelude_log_def login_command_line_def m by simp
  have "set (login_prelude_log cdswctl_path host username api_key ca_path)
          \<subseteq> set (login_logged (cdswctl_login run cdswctl_path host username api_key ca_path))"
    by (auto simp: cdswctl_login_def Let_def split: sum.splits)
  with l m n show ?thesis by auto
qed

section \<open>Properties of the installer\<close>

lemma bind_io_Inr: "m s = (Inr x, s') \<Longrightarrow> bind_io m f s = f x s'"
  by (simp add: bind_io_def)

lemma bind_io_Inl: "m s = (Inl e, s') \<Longrightarrow> bind_io m f s = (Inl e, s')"
  by (simp add: bind_io_def)

lemma bind_io_returns:
  assumes "bind_io m f s = (Inr y, t)"
  obtains x s' where "m s = (Inr x, s')" and "f x s' = (Inr y, t)"
  using assms by (auto simp: bind_io_def split: prod.splits sum.splits)

lemmas fs_eval =
  download_and_extract_in_def validate_and_extract_def download_and_extract_def obtain_cdswctl_def
  get_cdswctl_download_url_def cdswctl_tmp_dir_path_def urljoin_append_def serve_def
  download_file_def write_file_def tarfile_open_def extract_member_def os_remove_def os_listdir_def
  os_rename_def os_rmdir_def os_removedirs_def os_makedirs_def os_path_exists_def
  bind_io_def return_io_def raise_io_def node_at_def entries_def resolve_def resolve_step_def
  path_join_def path_split_def Path_def path_root_def path_parts_def parents_def Let_def












text \<open>
  Claim C4 at a failing input. On a platform other than linux and darwin the download
  URL names \<open>cdsw.zip\<close>; the archive is opened with \<open>tarfile.open\<close>, which raises
  ReadError on a zip archive, so nothing is extracted and the archive stays behind.
\<close>

theorem zip_archive_raises_read_error:
  "get_cdswctl_download_url env_windows ''https://h/'' = ''https://h/cli/windows/amd64/cdsw.zip'' \<and>
   obtain_cdswctl env_windows ''0123456789'' ''https://h/'' [] []
   = (Inl (ReadError ''file could not be opened successfully''),
      [([''opt''], Dir), ([''opt'', ''cdswctl''], Dir), ([''opt'', ''cdswctl'', ''0123456789''], Dir),
       ([''opt'', ''cdswctl'', ''0123456789'', ''cdsw.zip''],
        File (Zip [MDir ''cdsw'', MFile ''cdsw/cdswctl'' ''MZ'']))])"
  by (simp add: fs_eval env_windows_def)

lemma node_at_root: "node_at s [] = Some Dir"
  by (simp add: node_at_def)

lemma node_at_update:
  "node_at (AList.update k v s) q = (if q = [] then Some Dir else if q = k then Some v else node_at s q)"
  by (simp add: node_at_def update_conv')

lemma node_at_delete:
  "node_at (AList.delete k s) q = (if q = [] then Some Dir else if q = k then None else node_at s q)"
  by (simp add: node_at_def delete_conv')

lemma ensure_dirs_keeps:
  "node_at s q = Some n \<Longrightarrow> node_at (snd (ensure_dirs pre cs s)) q = Some n"
proof (induction cs arbitrary: pre s)
  case Nil
  then show ?case by simp
next
  case (Cons c cs)
  show ?case
  proof (cases "node_at s (pre @ [c])")
    case None
    with Cons.prems have "node_at (AList.update (pre @ [c]) Dir s) q = Some n"
      by (auto simp: node_at_update node_at_root)
    from Cons.IH [OF this] None show ?thesis by simp
  next
    case (Some a)
    with Cons show ?thesis by (cases a) auto
  qed
qed

lemma write_file_written:
  "write_file q c s = (Inr u, s') \<Longrightarrow> node_at s' q = Some (File c)"
  by (auto simp: write_file_def node_at_update node_at_root split: if_splits option.splits node.splits)

lemma write_file_keeps_file:
  assumes "node_at s q = Some (File c)"
  shows "\<exists>c'. node_at (snd (write_file t d s)) q = Some (File c')"
  using assms
  by (auto simp: write_file_def node_at_update node_at_root split: if_splits option.splits node.splits)

lemma download_file_written:
  "download_file f wd url filepath ca_path s = (Inr u, s')
     \<Longrightarrow> \<exists>body. node_at s' (resolve wd filepath) = Some (File body)"
  by (auto simp: download_file_def split: sum.splits dest: write_file_written)

lemma extract_member_keeps_file:
  assumes "node_at s q = Some (File c)"
  shows "\<exists>c'. node_at (snd (extract_member wd path m s)) q = Some (File c')"
proof (cases m)
  case (MDir name)
  let ?t = "resolve wd (path_join path name)"
  obtain r s1 where e: "ensure_dirs [] (butlast ?t) s = (r, s1)" by force
  have k: "node_at s1 q = Some (File c)"
    using ensure_dirs_keeps [OF assms, of "[]" "butlast ?t"] e by simp
  show ?thesis
    using k e MDir
    by (cases r) (auto simp: extract_member_def Let_def bind_io_def node_at_update node_at_root
                      split: option.splits node.splits)
next
  case (MFile name data)
  let ?t = "resolve wd (path_join path name)"
  obtain r s1 where e: "ensure_dirs [] (butlast ?t) s = (r, s1)" by force
  have k: "node_at s1 q = Some (File c)"
    using ensure_dirs_keeps [OF assms, of "[]" "butlast ?t"] e by simp
  show ?thesis
    using k e MFile write_file_keeps_file [OF k, of ?t "Bytes data"]
    by (cases r) (auto simp: extract_member_def Let_def bind_io_def)
qed

lemma extractall_keeps_file:
  "node_at s q = Some (File c)
     \<Longrightarrow> \<exists>c'. node_at (snd (extractall wd path ms s)) q = Some (File c')"
proof (induction ms arbitrary: s c)
  case Nil
  then show ?case by (simp add: return_io_def)
next
  case (Cons m ms)
  obtain r s1 where e: "extract_member wd path m s = (r, s1)" by force
  from extract_member_keeps_file [OF Cons.prems, of wd path m] e
  obtain c1 where k: "node_at s1 q = Some (File c1)" by auto
  show ?case
  proof (cases r)
    case (Inl x)
    with e k show ?thesis by (simp add: bind_io_def)
  next
    case (Inr u)
    with e Cons.IH [OF k] show ?thesis by (simp add: bind_io_def)
  qed
qed

lemma validate_and_extract_keeps_file:
  assumes "node_at s q = Some (File c)"
  shows "\<exists>c'. node_at (snd (validate_and_extract env file_path dir_path s)) q = Some (File c')"
proof (cases "Path (BASE_PATH_CDSWCTL env) \<in> set (parents (Path dir_path))")
  case False
  with assms show ?thesis by (simp add: validate_and_extract_def raise_io_def)
next
  case True
  obtain r s1 where o: "tarfile_open (cwd env) file_path s = (r, s1)" by force
  then have s1: "s1 = s"
    by (auto simp: tarfile_open_def split: option.splits node.splits content.splits)
  show ?thesis
  proof (cases r)
    case (Inl e)
    with o s1 True assms show ?thesis by (simp add: validate_and_extract_def bind_io_def)
  next
    case (Inr tf)
    with o s1 True extractall_keeps_file [OF assms, of "cwd env" dir_path tf]
    show ?thesis by (simp add: validate_and_extract_def bind_io_def)
  qed
qed

text \<open>
  Claim C9, amended. The archive is deleted only after validation and extraction have
  succeeded. When the download has succeeded and validation or extraction then raises,
  the install raises that exception and a file is still present at the archive's path:
  no deletion is attempted, and nothing is retried.
\<close>

theorem archive_left_after_failed_extraction:
  assumes "file_path = path_join dir_path (last (split_chr CHR ''/'' url))"
      and "download_file (fetch env) (cwd env) url file_path ca_path s = (Inr u, s1)"
      and "validate_and_extract env file_path dir_path s1 = (Inl e, s2)"
  shows "download_and_extract_in env url ca_path dir_path s = (Inl e, s2) \<and>
         (\<exists>c. node_at s2 (resolve (cwd env) file_path) = Some (File c))"
proof -
  from download_file_written [OF assms(2)]
  obtain body where b: "node_at s1 (resolve (cwd env) file_path) = Some (File body)" by auto
  from validate_and_extract_keeps_file [OF b, of env file_path dir_path] assms(3)
  have k: "\<exists>c. node_at s2 (resolve (cwd env) file_path) = Some (File c)" by simp
  have "download_and_extract_in env url ca_path dir_path s = (Inl e, s2)"
    using assms by (simp add: download_and_extract_in_def Let_def bind_io_def)
  with k show ?thesis by simp
qed


lemma zip_download:
  "download_file (fetch env_windows) (cwd env_windows) ''https://h/cli/windows/amd64/cdsw.zip''
      ''/opt/cdswctl/0123456789/cdsw.zip'' []
      [([''opt''], Dir), ([''opt'', ''cdswctl''], Dir), ([''opt'', ''cdswctl'', ''0123456789''], Dir)]
   = (Inr (),
      [([''opt''], Dir), ([''opt'', ''cdswctl''], Dir), ([''opt'', ''cdswctl'', ''0123456789''], Dir),
       ([''opt'', ''cdswctl'', ''0123456789'', ''cdsw.zip''],
        File (Zip [MDir ''cdsw'', MFile ''cdsw/cdswctl'' ''MZ'']))])"
  by (simp add: fs_eval env_windows_def)

lemma zip_extract:
  "validate_and_extract env_windows ''/opt/cdswctl/0123456789/cdsw.zip'' ''/opt/cdswctl/0123456789''
      [([''opt''], Dir), ([''opt'', ''cdswctl''], Dir), ([''opt'', ''cdswctl'', ''0123456789''], Dir),
       ([''opt'', ''cdswctl'', ''0123456789'', ''cdsw.zip''],
        File (Zip [MDir ''cdsw'', MFile ''cdsw/cdswctl'' ''MZ'']))]
   = (Inl (ReadError ''file could not be opened successfully''),
      [([''opt''], Dir), ([''opt'', ''cdswctl''], Dir), ([''opt'', ''cdswctl'', ''0123456789''], Dir),
       ([''opt'', ''cdswctl'', ''0123456789'', ''cdsw.zip''],
        File (Zip [MDir ''cdsw'', MFile ''cdsw/cdswctl'' ''MZ'']))])"
  by (simp add: fs_eval env_windows_def)

lemma zip_file_path:
  "''/opt/cdswctl/0123456789/cdsw.zip''
     = path_join ''/opt/cdswctl/0123456789'' (last (split_chr CHR ''/'' ''https://h/cli/windows/amd64/cdsw.zip''))"
  by (simp add: path_join_def)

theorem archive_left_after_failed_extraction_witness:
  "download_and_extract_in env_windows ''https://h/cli/windows/amd64/cdsw.zip'' [] ''/opt/cdswctl/0123456789''
      [([''opt''], Dir), ([''opt'', ''cdswctl''], Dir), ([''opt'', ''cdswctl'', ''0123456789''], Dir)]
   = (Inl (ReadError ''file could not be opened successfully''),
      [([''opt''], Dir), ([''opt'', ''cdswctl''], Dir), ([''opt'', ''cdswctl'', ''0123456789''], Dir),
       ([''opt'', ''cdswctl'', ''0123456789'', ''cdsw.zip''],
        File (Zip [MDir ''cdsw'', MFile ''cdsw/cdswctl'' ''MZ'']))])"
  using archive_left_after_failed_extraction [OF zip_file_path zip_download zip_extract]
  by simp

text \<open>
  Claim C9 as stated fails. After a failed path validation, and likewise after a failed
  extraction, the exception leaves the function before \<open>os.remove\<close> is reached: the
  downloaded archive is still in the workspace directory, so its deletion was not attempted.
\<close>

theorem archive_not_deleted_counterexample:
  "fst (download_and_extract_in env_linux ''https://h/cli/linux/amd64/cdsw.tar.gz'' [] ''/tmp/evil''
          [([''tmp''], Dir), ([''tmp'', ''evil''], Dir)])
     = Inl (RuntimeError ''path for cdswctl could not be validated.'') \<and>
   node_at (snd (download_and_extract_in env_linux ''https://h/cli/linux/amd64/cdsw.tar.gz'' [] ''/tmp/evil''
                   [([''tmp''], Dir), ([''tmp'', ''evil''], Dir)]))
           [''tmp'', ''evil'', ''cdsw.tar.gz'']
     = Some (File (Tar [MDir ''cdsw'', MFile ''cdsw/cdswctl'' ''ELF''])) \<and>
   fst (obtain_cdswctl env_windows ''0123456789'' ''https://h/'' [] [])
     = Inl (ReadError ''file could not be opened successfully'') \<and>
   node_at (snd (obtain_cdswctl env_windows ''0123456789'' ''https://h/'' [] []))
           [''opt'', ''cdswctl'', ''0123456789'', ''cdsw.zip'']
     = Some (File (Zip [MDir ''cdsw'', MFile ''cdsw/cdswctl'' ''MZ'']))"
  by (simp add: fs_eval env_windows_def env_linux_def)

subsection \<open>A successful install\<close>

lemma split_chr_not_Nil: "split_chr sep xs \<noteq> []"
  by (induction xs) (auto split: list.splits)

lemma split_chr_append_sep:
  "split_chr sep (xs @ sep # ys) = split_chr sep xs @ split_chr sep ys"
proof (induction xs)
  case Nil
  then show ?case by simp
next
  case (Cons x xs)
  then show ?case
    using split_chr_not_Nil [of sep xs]
    by (cases "split_chr sep xs") auto
qed

lemma split_chr_no_sep: "sep \<notin> set xs \<Longrightarrow> split_chr sep xs = [xs]"
  by (induction xs) auto

lemma resolve_step_name: "valid_name n \<Longrightarrow> resolve_step acc n = acc @ [n]"
  by (auto simp: resolve_step_def valid_name_def)

lemma startswith_slash: "startswith p ''/'' = (p \<noteq> [] \<and> hd p = CHR ''/'')"
  by (cases p) auto

lemma resolve_join:
  assumes "\<not> startswith b ''/''"
  shows "resolve wd (path_join a b) = foldl resolve_step (resolve wd a) (split_chr CHR ''/'' b)"
proof (cases "a = []")
  case True
  with assms show ?thesis
    by (simp add: path_join_def resolve_def resolve_step_def)
next
  case False
  show ?thesis
  proof (cases "last a = CHR ''/''")
    case True
    with False obtain a' where a: "a = a' @ ''/''"
      by (metis append_butlast_last_id)
    have st: "startswith (a @ b) ''/'' = startswith a ''/''"
      using False by (simp add: startswith_slash)
    have "path_join a b = a' @ CHR ''/'' # b"
      using assms False True a by (simp add: path_join_def)
    moreover have "split_chr CHR ''/'' a = split_chr CHR ''/'' a' @ [[]]"
      using split_chr_append_sep [of "CHR ''/''" a' "[]"] a by simp
    ultimately show ?thesis
      using st a split_chr_append_sep [of "CHR ''/''" a' b]
      by (simp add: resolve_def resolve_step_def)
  next
    case False
    note nl = this
    have st: "startswith (a @ CHR ''/'' # b) ''/'' = startswith a ''/''"
      using \<open>a \<noteq> []\<close> by (simp add: startswith_slash)
    have "path_join a b = a @ CHR ''/'' # b"
      using assms \<open>a \<noteq> []\<close> nl by (simp add: path_join_def)
    then show ?thesis
      using st split_chr_append_sep [of "CHR ''/''" a b]
      by (simp add: resolve_def)
  qed
qed

lemma valid_name_not_abs: "valid_name n \<Longrightarrow> \<not> startswith n ''/''"
  by (cases n) (auto simp: valid_name_def)

lemma resolve_join_name:
  assumes "valid_name n"
  shows "resolve wd (path_join a n) = resolve wd a @ [n]"
proof -
  have "split_chr CHR ''/'' n = [n]"
    using assms by (simp add: split_chr_no_sep valid_name_def)
  then show ?thesis
    using resolve_join [OF valid_name_not_abs [OF assms], of wd a] resolve_step_name [OF assms]
    by simp
qed

lemma valid_name_cdswctl: "valid_name ''cdswctl''"
  by (simp add: valid_name_def)

lemma resolve_join_member:
  assumes "valid_name tdir"
  shows "resolve wd (path_join a (tdir @ ''/cdswctl'')) = resolve wd a @ [tdir, ''cdswctl'']"
proof -
  have ns: "\<not> startswith (tdir @ ''/cdswctl'') ''/''"
    using assms by (cases tdir) (auto simp: valid_name_def)
  have "split_chr CHR ''/'' (tdir @ CHR ''/'' # ''cdswctl'') = [tdir] @ [''cdswctl'']"
    using assms split_chr_append_sep [of "CHR ''/''" tdir "''cdswctl''"]
    by (simp add: split_chr_no_sep valid_name_def)
  then show ?thesis
    using resolve_join [OF ns, of wd a] resolve_step_name [OF assms] resolve_step_name [OF valid_name_cdswctl]
    by simp
qed

lemma ensure_dirs_frame:
  "\<not> prefix q (pre @ cs) \<Longrightarrow> node_at (snd (ensure_dirs pre cs s)) q = node_at s q"
proof (induction cs arbitrary: pre s)
  case Nil
  then show ?case by simp
next
  case (Cons c cs)
  have ne: "q \<noteq> pre @ [c]"
    using Cons.prems by (auto simp: prefix_def)
  have q: "q \<noteq> []"
    using Cons.prems by auto
  have p: "\<not> prefix q ((pre @ [c]) @ cs)"
    using Cons.prems by simp
  show ?case
  proof (cases "node_at s (pre @ [c])")
    case None
    have "node_at (snd (ensure_dirs (pre @ [c]) cs (AList.update (pre @ [c]) Dir s))) q
            = node_at (AList.update (pre @ [c]) Dir s) q"
      by (rule Cons.IH [OF p])
    with None ne q show ?thesis by (simp add: node_at_update)
  next
    case (Some a)
    with Cons.IH [OF p, of s] show ?thesis by (cases a) auto
  qed
qed

lemma ensure_dirs_unchanged:
  assumes "node_at s q \<noteq> None \<or> \<not> prefix q (pre @ cs)"
  shows "node_at (snd (ensure_dirs pre cs s)) q = node_at s q"
proof (cases "node_at s q")
  case None
  with assms ensure_dirs_frame show ?thesis by auto
next
  case (Some n)
  with ensure_dirs_keeps show ?thesis by auto
qed

lemma write_file_view:
  assumes "write_file q c s = (Inr u, s')"
  shows "node_at s' = (node_at s)(q \<mapsto> File c)"
proof
  fix x
  from assms have q: "q \<noteq> []" and s': "s' = AList.update q (File c) s"
    by (auto simp: write_file_def split: if_splits option.splits node.splits)
  show "node_at s' x = ((node_at s)(q \<mapsto> File c)) x"
    using q s' by (auto simp: node_at_update node_at_root)
qed

lemma write_file_parent:
  "write_file q c s = (Inr u, s') \<Longrightarrow> node_at s (butlast q) = Some Dir"
  by (auto simp: write_file_def split: if_splits option.splits node.splits)

lemma os_remove_view:
  assumes "os_remove wd p s = (Inr u, s')"
  shows "node_at s' = (node_at s)(resolve wd p := None)"
proof
  fix x
  from assms have q: "resolve wd p \<noteq> []" and s': "s' = AList.delete (resolve wd p) s"
    by (auto simp: os_remove_def node_at_root split: option.splits node.splits)
  show "node_at s' x = ((node_at s)(resolve wd p := None)) x"
    using q s' by (auto simp: node_at_delete node_at_root)
qed

lemma os_rename_file_view:
  assumes "os_rename wd src dst s = (Inr u, s')"
      and "node_at s (resolve wd src) = Some (File x)"
      and "resolve wd src \<noteq> resolve wd dst"
  shows "node_at s' = ((node_at s)(resolve wd src := None))(resolve wd dst \<mapsto> File x)"
    and "node_at s (resolve wd dst) \<noteq> Some Dir"
proof -
  let ?a = "resolve wd src" and ?b = "resolve wd dst"
  from assms have b: "?b \<noteq> []" and nd: "node_at s ?b \<noteq> Some Dir"
      and s': "s' = AList.update ?b (File x) (AList.delete ?a s)"
    by (auto simp: os_rename_def Let_def split: if_splits)
  from assms(2) have a: "?a \<noteq> []" by (auto simp: node_at_root)
  show "node_at s' = ((node_at s)(?a := None))(?b \<mapsto> File x)"
  proof
    fix y
    show "node_at s' y = (((node_at s)(?a := None))(?b \<mapsto> File x)) y"
      using a b s' by (auto simp: node_at_update node_at_delete node_at_root)
  qed
  show "node_at s ?b \<noteq> Some Dir" by (rule nd)
qed

lemma os_rmdir_view:
  assumes "os_rmdir wd p s = (Inr u, s')"
  shows "node_at s' = (node_at s)(resolve wd p := None)"
    and "node_at s (resolve wd p) = Some Dir"
proof -
  from assms have q: "resolve wd p \<noteq> []" and d: "node_at s (resolve wd p) = Some Dir"
      and s': "s' = AList.delete (resolve wd p) s"
    by (auto simp: os_rmdir_def Let_def split: option.splits node.splits if_splits)
  show "node_at s' = (node_at s)(resolve wd p := None)"
  proof
    fix x
    show "node_at s' x = ((node_at s)(resolve wd p := None)) x"
      using q s' by (auto simp: node_at_delete node_at_root)
  qed
  show "node_at s (resolve wd p) = Some Dir" by (rule d)
qed

lemma os_rmdir_failed: "os_rmdir wd p s = (Inl e, s') \<Longrightarrow> s' = s"
  by (auto simp: os_rmdir_def Let_def split: option.splits node.splits if_splits)

lemma prune_view:
  "node_at (snd (prune wd h t s)) q = node_at s q
     \<or> (node_at s q = Some Dir \<and> node_at (snd (prune wd h t s)) q = None)"
proof (induction wd h t s rule: prune.induct)
  case (1 wd h t s)
  show ?case
  proof (cases "h \<noteq> [] \<and> t \<noteq> []")
    case False
    then show ?thesis by auto
  next
    case True
    obtain r s1 where rm: "os_rmdir wd h s = (r, s1)" by force
    show ?thesis
    proof (cases r)
      case (Inl e)
      with rm True os_rmdir_failed [of wd h s e s1] show ?thesis by simp
    next
      case (Inr u)
      with rm have v: "node_at s1 = (node_at s)(resolve wd h := None)"
          and d: "node_at s (resolve wd h) = Some Dir"
        using os_rmdir_view [of wd h s u s1] by auto
      from "1.IH" [OF True rm [symmetric] Inr]
      have ih: "node_at (snd (prune wd (fst (path_split h)) (snd (path_split h)) s1)) q = node_at s1 q
               \<or> (node_at s1 q = Some Dir
                   \<and> node_at (snd (prune wd (fst (path_split h)) (snd (path_split h)) s1)) q = None)"
        by simp
      have e: "prune wd h t s = prune wd (fst (path_split h)) (snd (path_split h)) s1"
        using True rm Inr by simp
      show ?thesis
        unfolding e using ih v d by (cases "q = resolve wd h") auto
    qed
  qed
qed

lemma os_removedirs_view:
  assumes "os_removedirs wd name s = (Inr u, s')"
  shows "node_at s (resolve wd name) = Some Dir"
    and "node_at s' q = (if q = resolve wd name then None else node_at s q)
           \<or> (node_at s q = Some Dir \<and> node_at s' q = None)"
proof -
  from assms obtain u1 s1 where rm: "os_rmdir wd name s = (Inr u1, s1)"
    and rest: "(let (head, tail) = path_split name;
                    (head, tail) = (if tail = [] then path_split head else (head, tail))
                in prune wd head tail) s1 = (Inr u, s')"
    unfolding os_removedirs_def by (rule bind_io_returns)
  from rest have "\<exists>h t. prune wd h t s1 = (Inr u, s')"
    by (auto simp: Let_def simp del: prune.simps split: prod.splits if_splits)
  then obtain h t where "prune wd h t s1 = (Inr u, s')" by blast
  then have p: "s' = snd (prune wd h t s1)" by (simp del: prune.simps)
  from os_rmdir_view [OF rm] have v: "node_at s1 = (node_at s)(resolve wd name := None)"
    and d: "node_at s (resolve wd name) = Some Dir" by auto
  show "node_at s (resolve wd name) = Some Dir" by (rule d)
  show "node_at s' q = (if q = resolve wd name then None else node_at s q)
           \<or> (node_at s q = Some Dir \<and> node_at s' q = None)"
    using prune_view [of wd h t s1 q] p v d by (cases "q = resolve wd name") auto
qed

lemma entries_set: "set (entries s q) = {x. node_at s (q @ [x]) \<noteq> None}"
proof (rule set_eqI)
  fix x
  have "x \<in> set (entries s q) \<longleftrightarrow> (\<exists>k \<in> fst ` set s. k \<noteq> [] \<and> butlast k = q \<and> last k = x)"
    by (auto simp: entries_def)
  also have "\<dots> \<longleftrightarrow> q @ [x] \<in> fst ` set s"
  proof
    assume "\<exists>k \<in> fst ` set s. k \<noteq> [] \<and> butlast k = q \<and> last k = x"
    then obtain k where k: "k \<in> fst ` set s" "k \<noteq> []" "butlast k = q" "last k = x" by blast
    from k(2-4) have "k = q @ [x]" using append_butlast_last_id [of k] by simp
    with k(1) show "q @ [x] \<in> fst ` set s" by simp
  next
    assume "q @ [x] \<in> fst ` set s"
    then show "\<exists>k \<in> fst ` set s. k \<noteq> [] \<and> butlast k = q \<and> last k = x"
      by (intro bexI [of _ "q @ [x]"]) simp_all
  qed
  also have "\<dots> \<longleftrightarrow> node_at s (q @ [x]) \<noteq> None"
    by (simp add: node_at_def map_of_eq_None_iff)
  finally show "x \<in> set (entries s q) \<longleftrightarrow> x \<in> {x. node_at s (q @ [x]) \<noteq> None}"
    by simp
qed

lemma os_listdir_view:
  "os_listdir wd p s = (Inr names, s') \<Longrightarrow> s' = s \<and> names = entries s (resolve wd p)"
  by (auto simp: os_listdir_def split: option.splits node.splits)

lemma tarfile_open_view:
  "tarfile_open wd name s = (Inr tf, s')
     \<Longrightarrow> s' = s \<and> node_at s (resolve wd name) = Some (File (Tar tf))"
  by (auto simp: tarfile_open_def split: option.splits node.splits content.splits)

lemma download_and_extract_in_returns:
  assumes "download_and_extract_in env url ca_path D s1 = (Inr p, s')"
  obtains u1 s2 u2 s3 u3 s4 c ns u5 s7 u6
  where "download_file (fetch env) (cwd env) url (path_join D (last (split_chr CHR ''/'' url))) ca_path s1
           = (Inr u1, s2)"
    and "validate_and_extract env (path_join D (last (split_chr CHR ''/'' url))) D s2 = (Inr u2, s3)"
    and "os_remove (cwd env) (path_join D (last (split_chr CHR ''/'' url))) s3 = (Inr u3, s4)"
    and "os_listdir (cwd env) D s4 = (Inr (c # ns), s4)"
    and "os_rename (cwd env) (path_join (path_join D c) ''cdswctl'') (path_join D ''cdswctl'') s4
           = (Inr u5, s7)"
    and "os_removedirs (cwd env) (path_join D c) s7 = (Inr u6, s')"
    and "p = path_join D ''cdswctl''"
proof -
  let ?F = "path_join D (last (split_chr CHR ''/'' url))"
  from assms obtain u1 s2 where
    a: "download_file (fetch env) (cwd env) url ?F ca_path s1 = (Inr u1, s2)" and
    r1: "bind_io (validate_and_extract env ?F D) (\<lambda>_.
         bind_io (os_remove (cwd env) ?F) (\<lambda>_.
         bind_io (os_listdir (cwd env) D) (\<lambda>names.
         bind_io (case names of [] \<Rightarrow> raise_io IndexError | n # ns \<Rightarrow> return_io n) (\<lambda>cdswctldir.
         bind_io (os_rename (cwd env) (path_join (path_join D cdswctldir) ''cdswctl'') (path_join D ''cdswctl'')) (\<lambda>_.
         bind_io (os_removedirs (cwd env) (path_join D cdswctldir)) (\<lambda>_.
         return_io (path_join D ''cdswctl''))))))) s2 = (Inr p, s')"
    unfolding download_and_extract_in_def Let_def by (rule bind_io_returns)
  from r1 obtain u2 s3 where
    b: "validate_and_extract env ?F D s2 = (Inr u2, s3)" and
    r2: "bind_io (os_remove (cwd env) ?F) (\<lambda>_.
         bind_io (os_listdir (cwd env) D) (\<lambda>names.
         bind_io (case names of [] \<Rightarrow> raise_io IndexError | n # ns \<Rightarrow> return_io n) (\<lambda>cdswctldir.
         bind_io (os_rename (cwd env) (path_join (path_join D cdswctldir) ''cdswctl'') (path_join D ''cdswctl'')) (\<lambda>_.
         bind_io (os_removedirs (cwd env) (path_join D cdswctldir)) (\<lambda>_.
         return_io (path_join D ''cdswctl'')))))) s3 = (Inr p, s')"
    by (rule bind_io_returns)
  from r2 obtain u3 s4 where
    c: "os_remove (cwd env) ?F s3 = (Inr u3, s4)" and
    r3: "bind_io (os_listdir (cwd env) D) (\<lambda>names.
         bind_io (case names of [] \<Rightarrow> raise_io IndexError | n # ns \<Rightarrow> return_io n) (\<lambda>cdswctldir.
         bind_io (os_rename (cwd env) (path_join (path_join D cdswctldir) ''cdswctl'') (path_join D ''cdswctl'')) (\<lambda>_.
         bind_io (os_removedirs (cwd env) (path_join D cdswctldir)) (\<lambda>_.
         return_io (path_join D ''cdswctl''))))) s4 = (Inr p, s')"
    by (rule bind_io_returns)
  from r3 obtain names s5 where
    d: "os_listdir (cwd env) D s4 = (Inr names, s5)" and
    r4: "bind_io (case names of [] \<Rightarrow> raise_io IndexError | n # ns \<Rightarrow> return_io n) (\<lambda>cdswctldir.
         bind_io (os_rename (cwd env) (path_join (path_join D cdswctldir) ''cdswctl'') (path_join D ''cdswctl'')) (\<lambda>_.
         bind_io (os_removedirs (cwd env) (path_join D cdswctldir)) (\<lambda>_.
         return_io (path_join D ''cdswctl'')))) s5 = (Inr p, s')"
    by (rule bind_io_returns)
  from os_listdir_view [OF d] have s5: "s5 = s4" by simp
  from r4 obtain cd s6 where
    e: "(case names of [] \<Rightarrow> raise_io IndexError | n # ns \<Rightarrow> return_io n) s5 = (Inr cd, s6)" and
    r5: "bind_io (os_rename (cwd env) (path_join (path_join D cd) ''cdswctl'') (path_join D ''cdswctl'')) (\<lambda>_.
         bind_io (os_removedirs (cwd env) (path_join D cd)) (\<lambda>_.
         return_io (path_join D ''cdswctl''))) s6 = (Inr p, s')"
    by (rule bind_io_returns)
  from e obtain ns where names: "names = cd # ns" and s6: "s6 = s5"
    by (cases names) (auto simp: raise_io_def return_io_def)
  from r5 obtain u5 s7 where
    f: "os_rename (cwd env) (path_join (path_join D cd) ''cdswctl'') (path_join D ''cdswctl'') s6 = (Inr u5, s7)" and
    r6: "bind_io (os_removedirs (cwd env) (path_join D cd)) (\<lambda>_.
         return_io (path_join D ''cdswctl'')) s7 = (Inr p, s')"
    by (rule bind_io_returns)
  from r6 obtain u6 s8 where
    g: "os_removedirs (cwd env) (path_join D cd) s7 = (Inr u6, s8)" and
    r7: "return_io (path_join D ''cdswctl'') s8 = (Inr p, s')"
    by (rule bind_io_returns)
  from r7 have p: "p = path_join D ''cdswctl''" and s8: "s8 = s'"
    by (auto simp: return_io_def)
  show ?thesis
    using that [OF a b c d [unfolded names s5] f [unfolded s6 s5] g [unfolded s8] p] .
qed

lemma ensure_dirs_target:
  "ensure_dirs pre cs s = (Inr u, s') \<Longrightarrow> node_at s' (pre @ cs) = node_at s' pre \<or> cs \<noteq> []"
  by (cases cs) auto

lemma ensure_dirs_made:
  "ensure_dirs pre cs s = (Inr u, s') \<Longrightarrow> cs \<noteq> [] \<Longrightarrow> node_at s' (pre @ cs) = Some Dir"
proof (induction cs arbitrary: pre s)
  case Nil
  then show ?case by simp
next
  case (Cons c cs)
  show ?case
  proof (cases "node_at s (pre @ [c])")
    case None
    let ?s1 = "AList.update (pre @ [c]) Dir s"
    from Cons.prems None have r: "ensure_dirs (pre @ [c]) cs ?s1 = (Inr u, s')" by simp
    show ?thesis
    proof (cases "cs = []")
      case True
      with r show ?thesis by (auto simp: node_at_update)
    next
      case False
      from Cons.IH [OF r False] show ?thesis by simp
    qed
  next
    case (Some a)
    show ?thesis
    proof (cases a)
      case Dir
      with Some Cons.prems have r: "ensure_dirs (pre @ [c]) cs s = (Inr u, s')" by simp
      show ?thesis
      proof (cases "cs = []")
        case True
        with r Some Dir show ?thesis by auto
      next
        case False
        from Cons.IH [OF r False] show ?thesis by simp
      qed
    next
      case (File x)
      with Some Cons.prems show ?thesis by simp
    qed
  qed
qed

lemma extract_wf_member:
  assumes ex: "extract_member wd D m s = (Inr u, s')"
      and m: "m = MDir tdir \<or> m = MFile (tdir @ ''/cdswctl'') data"
      and v: "valid_name tdir"
  shows "\<And>q. q \<noteq> resolve wd D @ [tdir] \<Longrightarrow> q \<noteq> resolve wd D @ [tdir, ''cdswctl'']
            \<Longrightarrow> node_at s q \<noteq> None \<or> \<not> prefix q (resolve wd D) \<Longrightarrow> node_at s' q = node_at s q"
    and "node_at s' (resolve wd D @ [tdir]) = Some Dir"
    and "m = MFile (tdir @ ''/cdswctl'') data
           \<Longrightarrow> node_at s' (resolve wd D @ [tdir, ''cdswctl'']) = Some (File (Bytes data))"
    and "m = MDir tdir
           \<Longrightarrow> node_at s' (resolve wd D @ [tdir, ''cdswctl'']) = node_at s (resolve wd D @ [tdir, ''cdswctl''])"
proof -
  let ?d = "resolve wd D"
  let ?t1 = "?d @ [tdir]" and ?t2 = "?d @ [tdir, ''cdswctl'']"
  have r1: "resolve wd (path_join D tdir) = ?t1" by (rule resolve_join_name [OF v])
  have r2: "resolve wd (path_join D (tdir @ ''/cdswctl'')) = ?t2" by (rule resolve_join_member [OF v])
  have b2: "butlast ?t2 = ?t1" by (simp add: butlast_append)
  have exd: "bind_io (ensure_dirs [] ?d)
               (\<lambda>_ s. case node_at s ?t1 of Some Dir \<Rightarrow> (Inr (), s)
                       | Some (File x) \<Rightarrow> (Inl (OSError ''FileExistsError''), s)
                       | None \<Rightarrow> (Inr (), AList.update ?t1 Dir s)) s = (Inr u, s')"
    if "m = MDir tdir"
    using ex that by (simp add: extract_member_def Let_def r1)
  have exf: "bind_io (ensure_dirs [] ?t1) (\<lambda>_. write_file ?t2 (Bytes data)) s = (Inr u, s')"
    if "m = MFile (tdir @ ''/cdswctl'') data"
    using ex that by (simp add: extract_member_def Let_def r2 b2)
  from m show "node_at s' ?t1 = Some Dir"
  proof
    assume md: "m = MDir tdir"
    from exd [OF md] obtain u1 s1 where e: "ensure_dirs [] ?d s = (Inr u1, s1)"
      and k: "(case node_at s1 ?t1 of Some Dir \<Rightarrow> (Inr (), s1)
               | Some (File x) \<Rightarrow> (Inl (OSError ''FileExistsError''), s1)
               | None \<Rightarrow> (Inr (), AList.update ?t1 Dir s1)) = (Inr u, s')"
      by (rule bind_io_returns)
    from k show ?thesis
      by (auto simp: node_at_update split: option.splits node.splits)
  next
    assume mf: "m = MFile (tdir @ ''/cdswctl'') data"
    from exf [OF mf] obtain u1 s1 where e: "ensure_dirs [] ?t1 s = (Inr u1, s1)"
      and w: "write_file ?t2 (Bytes data) s1 = (Inr u, s')"
      by (rule bind_io_returns)
    from write_file_parent [OF w] have "node_at s1 ?t1 = Some Dir" by (simp add: b2)
    with write_file_view [OF w] show ?thesis by simp
  qed
  {
    fix q
    assume q1: "q \<noteq> ?t1" and q2: "q \<noteq> ?t2" and q3: "node_at s q \<noteq> None \<or> \<not> prefix q ?d"
    from m show "node_at s' q = node_at s q"
    proof
      assume md: "m = MDir tdir"
      from exd [OF md] obtain u1 s1 where e: "ensure_dirs [] ?d s = (Inr u1, s1)"
        and k: "(case node_at s1 ?t1 of Some Dir \<Rightarrow> (Inr (), s1)
                 | Some (File x) \<Rightarrow> (Inl (OSError ''FileExistsError''), s1)
                 | None \<Rightarrow> (Inr (), AList.update ?t1 Dir s1)) = (Inr u, s')"
        by (rule bind_io_returns)
      from ensure_dirs_unchanged [of s q "[]" ?d] q3 e have a: "node_at s1 q = node_at s q" by simp
      from k q1 have "node_at s' q = node_at s1 q"
        by (auto simp: node_at_update node_at_root split: option.splits node.splits)
      with a show ?thesis by simp
    next
      assume mf: "m = MFile (tdir @ ''/cdswctl'') data"
      from exf [OF mf] obtain u1 s1 where e: "ensure_dirs [] ?t1 s = (Inr u1, s1)"
        and w: "write_file ?t2 (Bytes data) s1 = (Inr u, s')"
        by (rule bind_io_returns)
      have "node_at s q \<noteq> None \<or> \<not> prefix q ([] @ ?t1)"
        using q3 q1 by auto
      from ensure_dirs_unchanged [OF this, of] e have a: "node_at s1 q = node_at s q" by simp
      from write_file_view [OF w] q2 have "node_at s' q = node_at s1 q" by simp
      with a show ?thesis by simp
    qed
  }
  {
    assume mf: "m = MFile (tdir @ ''/cdswctl'') data"
    from exf [OF mf] obtain u1 s1 where w: "write_file ?t2 (Bytes data) s1 = (Inr u, s')"
      by (rule bind_io_returns)
    from write_file_view [OF w] show "node_at s' ?t2 = Some (File (Bytes data))" by simp
  }
  {
    assume md: "m = MDir tdir"
    from exd [OF md] obtain u1 s1 where e: "ensure_dirs [] ?d s = (Inr u1, s1)"
      and k: "(case node_at s1 ?t1 of Some Dir \<Rightarrow> (Inr (), s1)
               | Some (File x) \<Rightarrow> (Inl (OSError ''FileExistsError''), s1)
               | None \<Rightarrow> (Inr (), AList.update ?t1 Dir s1)) = (Inr u, s')"
      by (rule bind_io_returns)
    have "\<not> prefix ?t2 ([] @ ?d)" by (simp add: prefix_def)
    from ensure_dirs_frame [OF this, of s] e have a: "node_at s1 ?t2 = node_at s ?t2" by simp
    from k have "node_at s' ?t2 = node_at s1 ?t2"
      by (auto simp: node_at_update split: option.splits node.splits)
    with a show "node_at s' ?t2 = node_at s ?t2" by simp
  }
qed

lemma extractall_wf:
  assumes v: "valid_name tdir"
  shows "extractall wd D ms s = (Inr u, s')
     \<Longrightarrow> set ms \<subseteq> {MDir tdir, MFile (tdir @ ''/cdswctl'') data}
     \<Longrightarrow> (\<forall>q. q \<noteq> resolve wd D @ [tdir] \<and> q \<noteq> resolve wd D @ [tdir, ''cdswctl'']
               \<and> (node_at s q \<noteq> None \<or> \<not> prefix q (resolve wd D))
               \<longrightarrow> node_at s' q = node_at s q) \<and>
         (ms \<noteq> [] \<or> node_at s (resolve wd D @ [tdir]) = Some Dir
            \<longrightarrow> node_at s' (resolve wd D @ [tdir]) = Some Dir) \<and>
         (MFile (tdir @ ''/cdswctl'') data \<in> set ms
            \<or> node_at s (resolve wd D @ [tdir, ''cdswctl'']) = Some (File (Bytes data))
            \<longrightarrow> node_at s' (resolve wd D @ [tdir, ''cdswctl'']) = Some (File (Bytes data)))"
proof (induction ms arbitrary: s u)
  case Nil
  then show ?case by (simp add: return_io_def)
next
  case (Cons m ms)
  let ?t1 = "resolve wd D @ [tdir]" and ?t2 = "resolve wd D @ [tdir, ''cdswctl'']"
  from Cons.prems(1) obtain u1 s1 where
    e1: "extract_member wd D m s = (Inr u1, s1)" and e2: "extractall wd D ms s1 = (Inr u, s')"
    by (auto elim: bind_io_returns)
  from Cons.prems(2) have m: "m = MDir tdir \<or> m = MFile (tdir @ ''/cdswctl'') data"
    and sub: "set ms \<subseteq> {MDir tdir, MFile (tdir @ ''/cdswctl'') data}" by auto
  note F = extract_wf_member [OF e1 m v]
  note IH = Cons.IH [OF e2 sub]
  have A: "\<forall>q. q \<noteq> ?t1 \<and> q \<noteq> ?t2 \<and> (node_at s q \<noteq> None \<or> \<not> prefix q (resolve wd D))
             \<longrightarrow> node_at s' q = node_at s q"
  proof (intro allI impI)
    fix q
    assume q: "q \<noteq> ?t1 \<and> q \<noteq> ?t2 \<and> (node_at s q \<noteq> None \<or> \<not> prefix q (resolve wd D))"
    then have a: "node_at s1 q = node_at s q" using F(1) [of q] by blast
    with q have "node_at s1 q \<noteq> None \<or> \<not> prefix q (resolve wd D)" by simp
    with q IH have "node_at s' q = node_at s1 q" by blast
    with a show "node_at s' q = node_at s q" by simp
  qed
  have B: "node_at s' ?t1 = Some Dir" using IH F(2) by blast
  have C: "MFile (tdir @ ''/cdswctl'') data \<in> set (m # ms)
             \<or> node_at s ?t2 = Some (File (Bytes data))
           \<longrightarrow> node_at s' ?t2 = Some (File (Bytes data))"
  proof
    assume h: "MFile (tdir @ ''/cdswctl'') data \<in> set (m # ms)
               \<or> node_at s ?t2 = Some (File (Bytes data))"
    from m show "node_at s' ?t2 = Some (File (Bytes data))"
    proof
      assume md: "m = MDir tdir"
      with F(4) have "node_at s1 ?t2 = node_at s ?t2" by simp
      with h md have "MFile (tdir @ ''/cdswctl'') data \<in> set ms
                       \<or> node_at s1 ?t2 = Some (File (Bytes data))" by auto
      with IH show ?thesis by blast
    next
      assume mf: "m = MFile (tdir @ ''/cdswctl'') data"
      with F(3) have "node_at s1 ?t2 = Some (File (Bytes data))" by simp
      with IH show ?thesis by blast
    qed
  qed
  from A B C show ?case by simp
qed

lemma cdswctl_tmp_dir_path_view:
  assumes "cdswctl_tmp_dir_path env subdir s = (Inr D, s1)"
  shows "D = path_join (BASE_PATH_CDSWCTL env) subdir"
    and "\<And>q. node_at s q \<noteq> None \<or> \<not> prefix q (resolve (cwd env) D) \<Longrightarrow> node_at s1 q = node_at s q"
proof -
  let ?D = "path_join (BASE_PATH_CDSWCTL env) subdir"
  show D: "D = ?D"
    using assms
    by (auto simp: cdswctl_tmp_dir_path_def Let_def return_io_def bind_io_def
             split: if_splits prod.splits sum.splits)
  fix q
  assume q: "node_at s q \<noteq> None \<or> \<not> prefix q (resolve (cwd env) D)"
  show "node_at s1 q = node_at s q"
  proof (cases "os_path_exists (cwd env) ?D s")
    case True
    with assms show ?thesis by (simp add: cdswctl_tmp_dir_path_def Let_def return_io_def)
  next
    case False
    with assms have "ensure_dirs [] (resolve (cwd env) ?D) s = (Inr (), s1)"
      by (auto simp: cdswctl_tmp_dir_path_def Let_def return_io_def bind_io_def os_makedirs_def
               os_path_exists_def split: if_splits prod.splits sum.splits)
    with ensure_dirs_unchanged [of s q "[]" "resolve (cwd env) ?D"] q D show ?thesis by simp
  qed
qed

lemma os_remove_file:
  "os_remove wd p s = (Inr u, s') \<Longrightarrow> \<exists>x. node_at s (resolve wd p) = Some (File x)"
  by (auto simp: os_remove_def split: option.splits node.splits)

lemma validate_and_extract_returns:
  assumes "validate_and_extract env F D s = (Inr u, s')"
  obtains tf where "node_at s (resolve (cwd env) F) = Some (File (Tar tf))"
    and "extractall (cwd env) D tf s = (Inr u, s')"
proof -
  from assms have "bind_io (tarfile_open (cwd env) F) (\<lambda>tf. extractall (cwd env) D tf) s = (Inr u, s')"
    by (auto simp: validate_and_extract_def raise_io_def split: if_splits)
  then obtain tf s1 where o: "tarfile_open (cwd env) F s = (Inr tf, s1)"
    and e: "extractall (cwd env) D tf s1 = (Inr u, s')"
    by (rule bind_io_returns)
  from tarfile_open_view [OF o] e that show ?thesis by auto
qed

text \<open>
  Claim C5. Given a well-formed archive, whose members are one top-level directory and
  the file \<open>cdswctl\<close> inside it, served as a tar archive into a workspace directory
  that holds nothing yet, a successful install returns the path
  \<open><root>/<token>/cdswctl\<close>, the binary is a file at that path, and afterwards
  neither the downloaded archive nor the top-level directory remains in the workspace.
\<close>

theorem successful_install_relocates_binary:
  assumes ok: "download_and_extract env subdir url ca_path s = (Inr p, s')"
      and served: "fetch env url ca_path = Inr (Tar ms)"
      and wf: "set ms \<subseteq> {MDir tdir, MFile (tdir @ ''/cdswctl'') data}"
      and bin: "MFile (tdir @ ''/cdswctl'') data \<in> set ms"
      and tn: "valid_name tdir"
      and fn: "valid_name (last (split_chr CHR ''/'' url))"
      and fc: "last (split_chr CHR ''/'' url) \<noteq> ''cdswctl''"
      and fresh: "\<forall>k. k \<noteq> [] \<longrightarrow>
                    node_at s (resolve (cwd env) (path_join (BASE_PATH_CDSWCTL env) subdir) @ k) = None"
  shows "p = path_join (path_join (BASE_PATH_CDSWCTL env) subdir) ''cdswctl'' \<and>
         node_at s' (resolve (cwd env) p) = Some (File (Bytes data)) \<and>
         node_at s' (resolve (cwd env)
            (path_join (path_join (BASE_PATH_CDSWCTL env) subdir) (last (split_chr CHR ''/'' url)))) = None \<and>
         node_at s' (resolve (cwd env) (path_join (path_join (BASE_PATH_CDSWCTL env) subdir) tdir)) = None"
proof -
  let ?wd = "cwd env"
  let ?D = "path_join (BASE_PATH_CDSWCTL env) subdir"
  let ?fn = "last (split_chr CHR ''/'' url)"
  let ?d = "resolve ?wd ?D"
  let ?f = "?d @ [?fn]" and ?t1 = "?d @ [tdir]" and ?t2 = "?d @ [tdir, ''cdswctl'']"
  let ?nb = "?d @ [''cdswctl'']"
  have rf: "resolve ?wd (path_join ?D ?fn) = ?f" by (rule resolve_join_name [OF fn])
  have rt: "resolve ?wd (path_join ?D tdir) = ?t1" by (rule resolve_join_name [OF tn])
  have rn: "resolve ?wd (path_join ?D ''cdswctl'') = ?nb"
    by (rule resolve_join_name [OF valid_name_cdswctl])
  have ro: "resolve ?wd (path_join (path_join ?D tdir) ''cdswctl'') = ?t2"
    using resolve_join_name [OF valid_name_cdswctl, of ?wd "path_join ?D tdir"] rt by simp
  from ok obtain D s1 where
    tmp: "cdswctl_tmp_dir_path env subdir s = (Inr D, s1)" and
    body: "download_and_extract_in env url ca_path D s1 = (Inr p, s')"
    unfolding download_and_extract_def by (rule bind_io_returns)
  note T = cdswctl_tmp_dir_path_view [OF tmp]
  have D: "D = ?D" by (rule T(1))
  have v1: "node_at s1 (?d @ k) = None" if "k \<noteq> []" for k
  proof -
    from that have "\<not> prefix (?d @ k) (resolve ?wd D)" unfolding D by (simp add: prefix_def)
    with T(2) [of "?d @ k"] fresh that show ?thesis by simp
  qed
  from body [unfolded D] obtain u1 s2 u2 s3 u3 s4 c ns u5 s7 u6 where
    dl: "download_file (fetch env) ?wd url (path_join ?D ?fn) ca_path s1 = (Inr u1, s2)" and
    ve: "validate_and_extract env (path_join ?D ?fn) ?D s2 = (Inr u2, s3)" and
    rm: "os_remove ?wd (path_join ?D ?fn) s3 = (Inr u3, s4)" and
    ls: "os_listdir ?wd ?D s4 = (Inr (c # ns), s4)" and
    mv: "os_rename ?wd (path_join (path_join ?D c) ''cdswctl'') (path_join ?D ''cdswctl'') s4 = (Inr u5, s7)" and
    rd: "os_removedirs ?wd (path_join ?D c) s7 = (Inr u6, s')" and
    p: "p = path_join ?D ''cdswctl''"
    by (rule download_and_extract_in_returns)
  \<comment> \<open>after the download\<close>
  from dl served have w: "write_file ?f (Tar ms) s1 = (Inr u1, s2)"
    by (simp add: download_file_def rf)
  have v2: "node_at s2 = (node_at s1)(?f \<mapsto> File (Tar ms))" by (rule write_file_view [OF w])
  \<comment> \<open>after the extraction\<close>
  from ve obtain tf where
    o: "node_at s2 (resolve ?wd (path_join ?D ?fn)) = Some (File (Tar tf))" and
    ex: "extractall ?wd ?D tf s2 = (Inr u2, s3)"
    by (rule validate_and_extract_returns)
  from o v2 have tf: "tf = ms" by (simp add: rf)
  note E = extractall_wf [OF tn ex [unfolded tf] wf]
  from bin have ne: "ms \<noteq> []" by auto
  from E ne have t1: "node_at s3 ?t1 = Some Dir" by blast
  from E bin have t2: "node_at s3 ?t2 = Some (File (Bytes data))" by blast
  \<comment> \<open>the archive is not the top-level directory\<close>
  from os_remove_file [OF rm] t1 have ft: "?f \<noteq> ?t1" by (auto simp: rf)
  have v3: "node_at s3 (?d @ [x]) = None" if "x \<noteq> tdir" "x \<noteq> ?fn" for x
  proof -
    have "\<not> prefix (?d @ [x]) ?d" by (simp add: prefix_def)
    with E that have "node_at s3 (?d @ [x]) = node_at s2 (?d @ [x])" by auto
    with that v2 v1 [of "[x]"] show ?thesis by simp
  qed
  \<comment> \<open>after the removal of the archive\<close>
  have v4: "node_at s4 = (node_at s3)(?f := None)"
    using os_remove_view [OF rm] by (simp add: rf)
  have "set (c # ns) = {x. node_at s4 (?d @ [x]) \<noteq> None}"
    using os_listdir_view [OF ls] entries_set [of s4 ?d] by simp
  then have nn: "node_at s4 (?d @ [c]) \<noteq> None" by auto
  have c: "c = tdir"
  proof (rule ccontr)
    assume a: "c \<noteq> tdir"
    show False
    proof (cases "c = ?fn")
      case True
      with v4 nn show False by simp
    next
      case False
      from v3 [OF a False] have "node_at s4 (?d @ [c]) = None"
        unfolding v4 by simp
      with nn show False by simp
    qed
  qed
  \<comment> \<open>after the move\<close>
  have o4: "node_at s4 (resolve ?wd (path_join (path_join ?D c) ''cdswctl'')) = Some (File (Bytes data))"
    unfolding c ro using v4 t2 by simp
  have neq: "resolve ?wd (path_join (path_join ?D c) ''cdswctl'') \<noteq> resolve ?wd (path_join ?D ''cdswctl'')"
    unfolding c ro rn by simp
  have v7: "node_at s7 = ((node_at s4)(?t2 := None))(?nb \<mapsto> File (Bytes data))"
    using os_rename_file_view(1) [OF mv o4 neq] unfolding c ro rn .
  \<comment> \<open>after the removal of the directory\<close>
  note R = os_removedirs_view [OF rd, unfolded c rt]
  from R(1) v7 have nt: "?nb \<noteq> ?t1" by auto
  have r1: "node_at s' ?nb = Some (File (Bytes data))"
    using R(2) [of ?nb] v7 nt by auto
  have "?f \<noteq> ?nb" using fc by simp
  then have "node_at s7 ?f = None" using v7 v4 by simp
  then have r2: "node_at s' ?f = None" using R(2) [of ?f] by auto
  have r3: "node_at s' ?t1 = None" using R(2) [of ?t1] by auto
  from p r1 r2 r3 show ?thesis by (simp add: rn rf rt)
qed

lemma install_run:
  "download_and_extract env_linux ''0123456789'' ''https://h/cli/linux/amd64/cdsw.tar.gz'' [] []
   = (Inr ''/opt/cdswctl/0123456789/cdswctl'',
      [([''opt''], Dir), ([''opt'', ''cdswctl''], Dir), ([''opt'', ''cdswctl'', ''0123456789''], Dir),
       ([''opt'', ''cdswctl'', ''0123456789'', ''cdswctl''], File (Bytes ''ELF''))])"
  by (simp add: fs_eval env_linux_def)

lemma install_served:
  "fetch env_linux ''https://h/cli/linux/amd64/cdsw.tar.gz'' []
     = Inr (Tar [MDir ''cdsw'', MFile (''cdsw'' @ ''/cdswctl'') ''ELF''])"
  by (simp add: env_linux_def serve_def)

lemma install_fresh:
  "\<forall>k. k \<noteq> [] \<longrightarrow>
     node_at [] (resolve (cwd env_linux) (path_join (BASE_PATH_CDSWCTL env_linux) ''0123456789'') @ k) = None"
  by (simp add: node_at_def)

lemma install_paths:
  "resolve (cwd env_linux) ''/opt/cdswctl/0123456789/cdswctl'' = [''opt'', ''cdswctl'', ''0123456789'', ''cdswctl'']"
  "resolve (cwd env_linux) (path_join (path_join (BASE_PATH_CDSWCTL env_linux) ''0123456789'')
       (last (split_chr CHR ''/'' ''https://h/cli/linux/amd64/cdsw.tar.gz'')))
     = [''opt'', ''cdswctl'', ''0123456789'', ''cdsw.tar.gz'']"
  "resolve (cwd env_linux) (path_join (path_join (BASE_PATH_CDSWCTL env_linux) ''0123456789'') ''cdsw'')
     = [''opt'', ''cdswctl'', ''0123456789'', ''cdsw'']"
  by (simp_all add: env_linux_def resolve_def resolve_step_def path_join_def)

theorem successful_install_relocates_binary_witness:
  "download_and_extract env_linux ''0123456789'' ''https://h/cli/linux/amd64/cdsw.tar.gz'' [] []
     = (Inr ''/opt/cdswctl/0123456789/cdswctl'',
        [([''opt''], Dir), ([''opt'', ''cdswctl''], Dir), ([''opt'', ''cdswctl'', ''0123456789''], Dir),
         ([''opt'', ''cdswctl'', ''0123456789'', ''cdswctl''], File (Bytes ''ELF''))]) \<and>
   ''/opt/cdswctl/0123456789/cdswctl''
     = path_join (path_join (BASE_PATH_CDSWCTL env_linux) ''0123456789'') ''cdswctl'' \<and>
   node_at [([''opt''], Dir), ([''opt'', ''cdswctl''], Dir), ([''opt'', ''cdswctl'', ''0123456789''], Dir),
            ([''opt'', ''cdswctl'', ''0123456789'', ''cdswctl''], File (Bytes ''ELF''))]
           [''opt'', ''cdswctl'', ''0123456789'', ''cdswctl''] = Some (File (Bytes ''ELF'')) \<and>
   node_at [([''opt''], Dir), ([''opt'', ''cdswctl''], Dir), ([''opt'', ''cdswctl'', ''0123456789''], Dir),
            ([''opt'', ''cdswctl'', ''0123456789'', ''cdswctl''], File (Bytes ''ELF''))]
           [''opt'', ''cdswctl'', ''0123456789'', ''cdsw.tar.gz''] = None \<and>
   node_at [([''opt''], Dir), ([''opt'', ''cdswctl''], Dir), ([''opt'', ''cdswctl'', ''0123456789''], Dir),
            ([''opt'', ''cdswctl'', ''0123456789'', ''cdswctl''], File (Bytes ''ELF''))]
           [''opt'', ''cdswctl'', ''0123456789'', ''cdsw''] = None"
proof -
  have wf: "set [MDir ''cdsw'', MFile (''cdsw'' @ ''/cdswctl'') ''ELF'']
              \<subseteq> {MDir ''cdsw'', MFile (''cdsw'' @ ''/cdswctl'') ''ELF''}"
    by simp
  have bin: "MFile (''cdsw'' @ ''/cdswctl'') ''ELF'' \<in> set [MDir ''cdsw'', MFile (''cdsw'' @ ''/cdswctl'') ''ELF'']"
    by simp
  have tn: "valid_name ''cdsw''"
    by (simp add: valid_name_def)
  have fn: "valid_name (last (split_chr CHR ''/'' ''https://h/cli/linux/amd64/cdsw.tar.gz''))"
    by (simp add: valid_name_def)
  have fc: "last (split_chr CHR ''/'' ''https://h/cli/linux/amd64/cdsw.tar.gz'') \<noteq> ''cdswctl''"
    by simp
  note W = successful_install_relocates_binary [OF install_run install_served wf bin tn fn fc install_fresh]
  from W install_run show ?thesis
    unfolding install_paths by simp
qed

subsection \<open>The workspace that the installer makes for itself\<close>

text \<open>
  The directory that \<open>_cdswctl_tmp_dir_path\<close> returns is the root joined with a plain
  name, so the root is always among its \<open>parents\<close>: the check of
  \<open>_download_and_extract\<close> can fail only for a \<open>dir_path\<close> that came from elsewhere.
\<close>

lemma path_parts_join_name:
  assumes "valid_name n"
  shows "path_parts (path_join b n) = path_parts b @ [n]"
proof -
  have n: "split_chr CHR ''/'' n = [n]" "n \<noteq> []" "n \<noteq> ''.''" "\<not> startswith n ''/''"
    using assms valid_name_not_abs [OF assms] by (simp_all add: split_chr_no_sep valid_name_def)
  show ?thesis
  proof (cases "b = []")
    case True
    with n show ?thesis by (simp add: path_join_def path_parts_def)
  next
    case False
    show ?thesis
    proof (cases "last b = CHR ''/''")
      case True
      with False obtain b' where b: "b = b' @ ''/''" by (metis append_butlast_last_id)
      have "path_join b n = b' @ CHR ''/'' # n"
        using n False True b by (simp add: path_join_def)
      moreover have "split_chr CHR ''/'' b = split_chr CHR ''/'' b' @ [[]]"
        using split_chr_append_sep [of "CHR ''/''" b' "[]"] b by simp
      ultimately show ?thesis
        using n split_chr_append_sep [of "CHR ''/''" b' n] by (simp add: path_parts_def)
    next
      case nl: False
      have "path_join b n = b @ CHR ''/'' # n"
        using n False nl by (simp add: path_join_def)
      then show ?thesis
        using n split_chr_append_sep [of "CHR ''/''" b n] by (simp add: path_parts_def)
    qed
  qed
qed

lemma path_root_join_name:
  assumes "valid_name n"
  shows "path_root (path_join b n) = path_root b"
proof -
  obtain c cs where n: "n = c # cs" "c \<noteq> CHR ''/''"
    using assms by (cases n) (auto simp: valid_name_def)
  show ?thesis
  proof (cases b)
    case Nil
    with n show ?thesis by (simp add: path_join_def path_root_def)
  next
    case (Cons b1 r1)
    show ?thesis
    proof (cases r1)
      case Nil
      with Cons n show ?thesis by (auto simp: path_join_def path_root_def)
    next
      case (Cons b2 r2)
      note c2 = this
      show ?thesis
      proof (cases r2)
        case Nil
        with \<open>b = b1 # r1\<close> c2 n show ?thesis by (auto simp: path_join_def path_root_def)
      next
        case (Cons b3 r3)
        with \<open>b = b1 # r1\<close> c2 n show ?thesis by (auto simp: path_join_def path_root_def)
      qed
    qed
  qed
qed

lemma workspace_always_validates:
  assumes "valid_name subdir"
  shows "Path base \<in> set (parents (Path (path_join base subdir)))"
proof -
  have "Path (path_join base subdir) = (path_root base, path_parts base @ [subdir])"
    by (simp add: Path_def path_parts_join_name [OF assms] path_root_join_name [OF assms])
  moreover have "(path_root base, path_parts base)
       \<in> set (parents (path_root base, path_parts base @ [subdir]))"
    by (auto simp: parents_def image_iff intro!: bexI [of _ "length (path_parts base)"])
  ultimately show ?thesis by (simp add: Path_def)
qed

end
